theory Spec2Isabelle
  imports Complex_Main
begin

section \<open>Go values, machine integers and library functions\<close>

text \<open>
  The repository is one Go file in two variants, joined in \<^verbatim>\<open>src/app.go\<close>: the
  paginating variant (lines 1-372: \<^verbatim>\<open>OpenExcel\<close>, \<^verbatim>\<open>ExecuteSQLWithPage\<close>,
  \<^verbatim>\<open>ExportExcelBySQL\<close>, \<^verbatim>\<open>GetCurrentSQL\<close>) and the caching variant (lines 373-622:
  \<^verbatim>\<open>OpenExcel\<close>, \<^verbatim>\<open>ExecuteSQL\<close>, \<^verbatim>\<open>SaveResult\<close>). Definitions of the caching variant
  carry the suffix \<open>_B\<close>.

  A Go \<^verbatim>\<open>string\<close> is a byte sequence and is modelled as \<^typ>\<open>string\<close>. The
  messages of the program are Chinese text built by \<^verbatim>\<open>fmt.Sprintf\<close>; they are modelled
  by one constructor per format string, holding the format's arguments.
\<close>

datatype message =
    ErrDbNotInitialised                 \<comment> \<open>lines 63, 171, 266\<close>
  | ErrFileDialog string                \<comment> \<open>lines 72, 424\<close>
  | MsgNoFileChosen                     \<comment> \<open>lines 75, 427\<close>
  | ErrParseFailed string               \<comment> \<open>lines 80, 433\<close>
  | ErrReadSheet string string          \<comment> \<open>lines 90, 444: sheet name, error\<close>
  | ErrDropTable string string          \<comment> \<open>lines 99, 453: table name, error\<close>
  | ErrCreateTable string string        \<comment> \<open>lines 116, 470: table name, error\<close>
  | ErrBegin string                     \<comment> \<open>line 122\<close>
  | ErrPrepare string                   \<comment> \<open>line 134\<close>
  | ErrInsertRow nat string             \<comment> \<open>line 152: row index, error\<close>
  | ErrCommit string                    \<comment> \<open>line 157\<close>
  | MsgImported nat nat                 \<comment> \<open>line 162: sheets imported, sheets in the file\<close>
  | ErrInsert string                    \<comment> \<open>line 495: error only\<close>
  | MsgImported_B nat                   \<comment> \<open>line 500: sheets in the file\<close>
  | ErrNoSQL                            \<comment> \<open>lines 177, 508\<close>
  | ErrSQLEmpty                         \<comment> \<open>line 271\<close>
  | ErrQueryFailed string               \<comment> \<open>lines 189, 277, 515\<close>
  | ErrColumnsFailed string             \<comment> \<open>lines 197, 284, 523\<close>
  | ErrScanFailed string                \<comment> \<open>lines 212, 298, 538\<close>
  | ErrIterFailed string                \<comment> \<open>lines 231, 318\<close>
  | MsgPage int int int                 \<comment> \<open>line 257: total, page number, total pages\<close>
  | ErrExportEmpty                      \<comment> \<open>line 323\<close>
  | ErrSaveDialog string                \<comment> \<open>lines 335, 577\<close>
  | MsgExportCancelled                  \<comment> \<open>line 338\<close>
  | ErrSaveAs string                    \<comment> \<open>line 362\<close>
  | MsgExported string nat              \<comment> \<open>line 365: path, number of rows\<close>
  | MsgQueryCount nat                   \<comment> \<open>line 560\<close>
  | MsgNothingToSave                    \<comment> \<open>line 567\<close>
  | MsgSaveCancelled                    \<comment> \<open>line 580\<close>
  | ErrCreateFile string                \<comment> \<open>line 586\<close>
  | ErrWriteHeader string               \<comment> \<open>line 595\<close>
  | ErrWriteRecord string               \<comment> \<open>line 617\<close>
  | MsgSaved string                     \<comment> \<open>line 621\<close>

text \<open>A run-time panic of Go ends the call without a return value.\<close>

datatype panic = DivideByZero | SliceBounds | NilDereference

datatype 'a outcome = Returned 'a | Panicked panic

subsection \<open>The type \<^verbatim>\<open>int\<close>: 64 bits, two's complement\<close>

text \<open>
  On the 64-bit platforms the program is built for, \<^verbatim>\<open>int\<close> has 64 bits; \<^verbatim>\<open>+\<close>,
  \<^verbatim>\<open>-\<close> and \<^verbatim>\<open>*\<close> wrap around, \<^verbatim>\<open>/\<close> truncates towards zero and panics on a zero
  divisor (the caller checks the divisor before \<open>quo64\<close>).
\<close>

definition wrap64 :: "int \<Rightarrow> int" where
  "wrap64 x = (x + 2 ^ 63) mod 2 ^ 64 - 2 ^ 63"

definition add64 :: "int \<Rightarrow> int \<Rightarrow> int" where
  "add64 a b = wrap64 (a + b)"

definition sub64 :: "int \<Rightarrow> int \<Rightarrow> int" where
  "sub64 a b = wrap64 (a - b)"

definition mul64 :: "int \<Rightarrow> int \<Rightarrow> int" where
  "mul64 a b = wrap64 (a * b)"

definition quo64 :: "int \<Rightarrow> int \<Rightarrow> int" where
  "quo64 a b = wrap64 (sgn a * sgn b * (\<bar>a\<bar> div \<bar>b\<bar>))"

text \<open>
  A slice expression \<^verbatim>\<open>xs[lo:hi]\<close> panics unless \<^verbatim>\<open>0 <= lo <= hi <= cap(xs)\<close>. The
  one slice expression of the program (line 247) has \<^verbatim>\<open>hi <= len(xs)\<close>, so the bound is
  written with the length.
\<close>

definition go_slice :: "'a list \<Rightarrow> int \<Rightarrow> int \<Rightarrow> panic + 'a list" where
  "go_slice xs lo hi =
     (if 0 \<le> lo \<and> lo \<le> hi \<and> hi \<le> int (length xs)
      then Inr (take (nat (hi - lo)) (drop (nat lo) xs))
      else Inl SliceBounds)"

subsection \<open>\<^verbatim>\<open>strings.TrimSpace\<close>\<close>

text \<open>
  \<^verbatim>\<open>strings.TrimSpace\<close> removes leading and trailing white space as Unicode defines it
  (\<^verbatim>\<open>unicode.IsSpace\<close>). \<open>space_runes\<close> lists the UTF-8 encodings of these code points:
  U+0009 to U+000D, U+0020, U+0085, U+00A0, U+1680, U+2000 to U+200A, U+2028, U+2029,
  U+202F, U+205F, U+3000.
\<close>

definition space_runes :: "nat list list" where
  "space_runes =
     [[9], [10], [11], [12], [13], [32], [194, 133], [194, 160], [225, 154, 128],
      [226, 128, 128], [226, 128, 129], [226, 128, 130], [226, 128, 131],
      [226, 128, 132], [226, 128, 133], [226, 128, 134], [226, 128, 135],
      [226, 128, 136], [226, 128, 137], [226, 128, 138], [226, 128, 168],
      [226, 128, 169], [226, 128, 175], [226, 129, 159], [227, 128, 128]]"

definition rune_len :: "nat list list \<Rightarrow> string \<Rightarrow> nat" where
  "rune_len pats s =
     (case find (\<lambda>p. take (length p) (map of_char s) = p) pats of
        None \<Rightarrow> 0
      | Some p \<Rightarrow> length p)"

fun strip_runes :: "nat list list \<Rightarrow> string \<Rightarrow> string" where
  "strip_runes pats [] = []"
| "strip_runes pats (c # cs) =
     (let n = rune_len pats (c # cs)
      in if n = 0 then c # cs else strip_runes pats (drop (n - 1) cs))"

definition TrimSpace :: "string \<Rightarrow> string" where
  "TrimSpace s =
     rev (strip_runes (map rev space_runes) (rev (strip_runes space_runes s)))"

section \<open>The store's answer to a query\<close>

text \<open>
  The store engine (\<^verbatim>\<open>database/sql\<close> over SQLite) is an external collaborator. A value
  it hands to \<^verbatim>\<open>Scan\<close> into an \<^verbatim>\<open>interface{}\<close> is one of the driver's value kinds; a
  \<^verbatim>\<open>float64\<close> and a \<^verbatim>\<open>time.Time\<close> are carried as opaque numbers, since the program only
  passes them on.
\<close>

datatype driver_value =
    VNil
  | VInt64 int
  | VFloat64 int
  | VBool bool
  | VBytes string
  | VString string
  | VTime int

text \<open>
  What \<^verbatim>\<open>db.Query\<close> returns on success is a cursor: the result of \<^verbatim>\<open>Columns()\<close>, the rows
  that \<^verbatim>\<open>Next()\<close> delivers, each with the result of its \<^verbatim>\<open>Scan\<close>, and the result of
  \<^verbatim>\<open>Err()\<close> once \<^verbatim>\<open>Next()\<close> has returned false.
\<close>

record cursor =
  cur_columns :: "string + string list"
  cur_rows :: "(string + driver_value list) list"
  cur_err :: "string option"

type_synonym row = "string \<rightharpoonup> driver_value"

text \<open>
  \<^verbatim>\<open>Scan(valuePtrs...)\<close> with one destination per column: \<^verbatim>\<open>database/sql\<close> refuses a
  row whose number of values differs from the number of destinations, so that
  \<^verbatim>\<open>values[i]\<close> is in range for every column index.
\<close>

definition scan_row :: "nat \<Rightarrow> string + driver_value list \<Rightarrow> string + driver_value list" where
  "scan_row n r =
     (case r of
        Inl e \<Rightarrow> Inl e
      | Inr vs \<Rightarrow> if length vs = n then Inr vs else Inl ''sql: wrong number of destinations'')"

section \<open>The paginating variant: query and export\<close>

text \<open>
  Lines 216-226: the loop \<^verbatim>\<open>for i, col := range columns\<close> over one scanned row, with
  the three branches of lines 219-225 for the value stored under the column name.
\<close>

fun page_row :: "string list \<Rightarrow> driver_value list \<Rightarrow> row \<Rightarrow> row" where
  "page_row (col # cols) (val # vals) r =
     page_row cols vals
       (r(col \<mapsto> (case val of VBytes b \<Rightarrow> VString b | VNil \<Rightarrow> VString [] | _ \<Rightarrow> val)))"
| "page_row _ _ r = r"

text \<open>Lines 209-228: the loop \<^verbatim>\<open>for fullRows.Next()\<close>, appending to \<^verbatim>\<open>fullData\<close>.\<close>

fun page_rows :: "string list \<Rightarrow> (string + driver_value list) list \<Rightarrow> row list \<Rightarrow> message + row list" where
  "page_rows columns [] fullData = Inr fullData"
| "page_rows columns (r # rs) fullData =
     (case scan_row (length columns) r of
        Inl e \<Rightarrow> Inl (ErrScanFailed e)
      | Inr vals \<Rightarrow> page_rows columns rs (fullData @ [page_row columns vals Map.empty]))"

text \<open>Lines 195-233: columns and full data of the paginated path.\<close>

definition page_materialize :: "cursor \<Rightarrow> message + (string list \<times> row list)" where
  "page_materialize cur =
     (case cur_columns cur of
        Inl e \<Rightarrow> Inl (ErrColumnsFailed e)
      | Inr columns \<Rightarrow>
          (case page_rows columns (cur_rows cur) [] of
             Inl m \<Rightarrow> Inl m
           | Inr fullData \<Rightarrow>
               (case cur_err cur of
                  Some e \<Rightarrow> Inl (ErrIterFailed e)
                | None \<Rightarrow> Inr (columns, fullData))))"

text \<open>
  Lines 236-248: total pages and the page, computed on \<^verbatim>\<open>int\<close>. The nil slice that
  \<^verbatim>\<open>pageData\<close> holds when the start is not below the total is the empty list.
\<close>

definition page_slice :: "'a list \<Rightarrow> int \<Rightarrow> int \<Rightarrow> panic + (int \<times> 'a list)" where
  "page_slice fullData pageNum pageSize =
     (let total = int (length fullData) in
      if pageSize = 0 then Inl DivideByZero
      else
        let totalPages = quo64 (sub64 (add64 total pageSize) 1) pageSize;
            start = mul64 (sub64 pageNum 1) pageSize;
            end0 = add64 start pageSize;
            end1 = (if end0 > total then total else end0)
        in if start < total
           then (case go_slice fullData start end1 of
                   Inl p \<Rightarrow> Inl p
                 | Inr pageData \<Rightarrow> Inr (totalPages, pageData))
           else Inr (totalPages, []))"

text \<open>
  The struct \<^verbatim>\<open>App\<close> (lines 17-23). \<open>db\<close> is \<open>False\<close> for the nil connection; the
  context is an opaque handle.
\<close>

record app =
  ctx :: nat
  db :: bool
  currentPage :: int
  currentPageSize :: int
  currentSQL :: string

text \<open>
  What the operations do outside the struct is recorded as a trace of events: every
  statement that reaches the store engine, every dialog shown, every file saved. The
  answers of the outside world are the fields of \<open>env\<close>.
\<close>

record cell =
  cell_col :: nat
  cell_row :: nat

datatype event =
    EvQuery string
  | EvSaveDialog
  | EvSaveAs string "(cell \<times> driver_value) list"
  | EvCreateFile string
  | EvCsvWrite "string list"

record env =
  db_query :: "string \<Rightarrow> string + cursor"
  save_dialog :: "string + string"
  save_as :: "string \<Rightarrow> (cell \<times> driver_value) list \<Rightarrow> string option"

record page_view =
  pv_columns :: "string list"
  pv_data :: "row list"
  pv_total :: int
  pv_totalPages :: int
  pv_currentPage :: int
  pv_pageSize :: int
  pv_message :: message

datatype page_result = PageError message | PageOk page_view

text \<open>Lines 167-259.\<close>

definition ExecuteSQLWithPage ::
  "env \<Rightarrow> string \<Rightarrow> int \<Rightarrow> int \<Rightarrow> app \<Rightarrow> event list \<Rightarrow> page_result outcome \<times> app \<times> event list" where
  "ExecuteSQLWithPage e sqlStr0 pageNum pageSize a evs =
     (if \<not> db a then (Returned (PageError ErrDbNotInitialised), a, evs)
      else
        let sqlStr = TrimSpace sqlStr0 in
        if sqlStr = [] then (Returned (PageError ErrNoSQL), a, evs)
        else
          let a1 = a\<lparr>currentSQL := sqlStr, currentPage := pageNum, currentPageSize := pageSize\<rparr>;
              evs1 = evs @ [EvQuery sqlStr]
          in (case db_query e sqlStr of
                Inl err \<Rightarrow> (Returned (PageError (ErrQueryFailed err)), a1, evs1)
              | Inr fullRows \<Rightarrow>
                  (case page_materialize fullRows of
                     Inl m \<Rightarrow> (Returned (PageError m), a1, evs1)
                   | Inr (columns, fullData) \<Rightarrow>
                       (case page_slice fullData pageNum pageSize of
                          Inl p \<Rightarrow> (Panicked p, a1, evs1)
                        | Inr (totalPages, pageData) \<Rightarrow>
                            (Returned (PageOk
                               \<lparr>pv_columns = columns, pv_data = pageData,
                                pv_total = int (length fullData), pv_totalPages = totalPages,
                                pv_currentPage = pageNum, pv_pageSize = pageSize,
                                pv_message = MsgPage (int (length fullData)) pageNum totalPages\<rparr>),
                             a1, evs1)))))"

text \<open>Lines 301-312: the row loop of the export path, with the branches of lines 305-311.\<close>

fun export_row :: "string list \<Rightarrow> driver_value list \<Rightarrow> row \<Rightarrow> row" where
  "export_row (col # cols) (val # vals) r =
     export_row cols vals
       (r(col \<mapsto> (case val of VBytes b \<Rightarrow> VString b | VNil \<Rightarrow> VString [] | _ \<Rightarrow> val)))"
| "export_row _ _ r = r"

text \<open>Lines 295-314.\<close>

fun export_rows :: "string list \<Rightarrow> (string + driver_value list) list \<Rightarrow> row list \<Rightarrow> message + row list" where
  "export_rows columns [] fullData = Inr fullData"
| "export_rows columns (r # rs) fullData =
     (case scan_row (length columns) r of
        Inl e \<Rightarrow> Inl (ErrScanFailed e)
      | Inr vals \<Rightarrow> export_rows columns rs (fullData @ [export_row columns vals Map.empty]))"

text \<open>Lines 282-319: columns and full data of the export path.\<close>

definition export_materialize :: "cursor \<Rightarrow> message + (string list \<times> row list)" where
  "export_materialize cur =
     (case cur_columns cur of
        Inl e \<Rightarrow> Inl (ErrColumnsFailed e)
      | Inr columns \<Rightarrow>
          (case export_rows columns (cur_rows cur) [] of
             Inl m \<Rightarrow> Inl m
           | Inr fullData \<Rightarrow>
               (case cur_err cur of
                  Some e \<Rightarrow> Inl (ErrIterFailed e)
                | None \<Rightarrow> Inr (columns, fullData))))"

text \<open>
  Lines 346-358: the calls of \<^verbatim>\<open>SetCellValue\<close>, in order. The cell reference is
  \<^verbatim>\<open>fmt.Sprintf("%c%d", 'A'+colIdx, row)\<close>: one character, whose code point is
  \<open>65 + colIdx\<close>, followed by the row number; it is kept as the pair of the two.
  A missing key of a Go map reads as nil.
\<close>

definition cell_name :: "nat \<Rightarrow> nat \<Rightarrow> cell" where
  "cell_name colIdx rowNo = \<lparr>cell_col = 65 + colIdx, cell_row = rowNo\<rparr>"

definition header_cells :: "string list \<Rightarrow> (cell \<times> driver_value) list" where
  "header_cells columns =
     map (\<lambda>(colIdx, colName). (cell_name colIdx 1, VString colName)) (enumerate 0 columns)"

definition row_cells :: "string list \<Rightarrow> nat \<Rightarrow> row \<Rightarrow> (cell \<times> driver_value) list" where
  "row_cells columns rowIdx rowData =
     map (\<lambda>(colIdx, colName).
            (cell_name colIdx (rowIdx + 2),
             (case rowData colName of None \<Rightarrow> VNil | Some v \<Rightarrow> v)))
         (enumerate 0 columns)"

definition data_cells :: "string list \<Rightarrow> row list \<Rightarrow> (cell \<times> driver_value) list" where
  "data_cells columns fullData =
     concat (map (\<lambda>(rowIdx, rowData). row_cells columns rowIdx rowData) (enumerate 0 fullData))"

text \<open>
  Lines 263-366. The line that line 326 prints to the standard output is no event of
  the trace.
\<close>

definition ExportExcelBySQL ::
  "env \<Rightarrow> string \<Rightarrow> app \<Rightarrow> event list \<Rightarrow> message \<times> app \<times> event list" where
  "ExportExcelBySQL e sqlStr0 a evs =
     (if \<not> db a then (ErrDbNotInitialised, a, evs)
      else
        let sqlStr = TrimSpace sqlStr0 in
        if sqlStr = [] then (ErrSQLEmpty, a, evs)
        else
          let evs1 = evs @ [EvQuery sqlStr]
          in (case db_query e sqlStr of
                Inl err \<Rightarrow> (ErrQueryFailed err, a, evs1)
              | Inr fullRows \<Rightarrow>
                  (case export_materialize fullRows of
                     Inl m \<Rightarrow> (m, a, evs1)
                   | Inr (columns, fullData) \<Rightarrow>
                       if length fullData = 0 then (ErrExportEmpty, a, evs1)
                       else
                         let evs2 = evs1 @ [EvSaveDialog]
                         in (case save_dialog e of
                               Inl err \<Rightarrow> (ErrSaveDialog err, a, evs2)
                             | Inr savePath \<Rightarrow>
                                 if savePath = [] then (MsgExportCancelled, a, evs2)
                                 else
                                   let cells = header_cells columns @ data_cells columns fullData;
                                       evs3 = evs2 @ [EvSaveAs savePath cells]
                                   in (case save_as e savePath cells of
                                         Some err \<Rightarrow> (ErrSaveAs err, a, evs3)
                                       | None \<Rightarrow>
                                           (MsgExported savePath (length fullData), a, evs3))))))"

text \<open>Lines 370-372 and 55-57.\<close>

definition GetCurrentSQL :: "app \<Rightarrow> string \<times> app" where
  "GetCurrentSQL a = (currentSQL a, a)"

definition Startup :: "nat \<Rightarrow> app \<Rightarrow> app" where
  "Startup c a = a\<lparr>ctx := c\<rparr>"

section \<open>The caching variant: query and save\<close>

text \<open>The struct \<^verbatim>\<open>App\<close> of the caching variant (lines 389-397).\<close>

record app_B =
  ctx_B :: nat
  db_B :: bool
  queryResult_Columns :: "string list"
  queryResult_Data :: "row list"

text \<open>Lines 542-550: only a byte sequence is converted; nil is stored as it is.\<close>

fun query_row_B :: "string list \<Rightarrow> driver_value list \<Rightarrow> row \<Rightarrow> row" where
  "query_row_B (col # cols) (val # vals) r =
     query_row_B cols vals (r(col \<mapsto> (case val of VBytes b \<Rightarrow> VString b | _ \<Rightarrow> val)))"
| "query_row_B _ _ r = r"

text \<open>Lines 535-552.\<close>

fun query_rows_B :: "string list \<Rightarrow> (string + driver_value list) list \<Rightarrow> row list \<Rightarrow> message + row list" where
  "query_rows_B columns [] data = Inr data"
| "query_rows_B columns (r # rs) data =
     (case scan_row (length columns) r of
        Inl e \<Rightarrow> Inl (ErrScanFailed e)
      | Inr vals \<Rightarrow> query_rows_B columns rs (data @ [query_row_B columns vals Map.empty]))"

datatype query_result_B = QueryError message | QueryOk "string list" "row list" message

text \<open>
  Lines 504-562. The connection is not checked: \<^verbatim>\<open>Query\<close> on the nil connection
  panics. \<^verbatim>\<open>rows.Err()\<close> is not read.
\<close>

definition ExecuteSQL_B ::
  "env \<Rightarrow> string \<Rightarrow> app_B \<Rightarrow> event list \<Rightarrow> query_result_B outcome \<times> app_B \<times> event list" where
  "ExecuteSQL_B e sqlStr0 a evs =
     (let sqlStr = TrimSpace sqlStr0 in
      if sqlStr = [] then (Returned (QueryError ErrNoSQL), a, evs)
      else if \<not> db_B a then (Panicked NilDereference, a, evs)
      else
        let evs1 = evs @ [EvQuery sqlStr]
        in (case db_query e sqlStr of
              Inl err \<Rightarrow> (Returned (QueryError (ErrQueryFailed err)), a, evs1)
            | Inr rows \<Rightarrow>
                (case cur_columns rows of
                   Inl err \<Rightarrow> (Returned (QueryError (ErrColumnsFailed err)), a, evs1)
                 | Inr columns \<Rightarrow>
                     (case query_rows_B columns (cur_rows rows) [] of
                        Inl m \<Rightarrow> (Returned (QueryError m), a, evs1)
                      | Inr data \<Rightarrow>
                          (Returned (QueryOk columns data (MsgQueryCount (length data))),
                           a\<lparr>queryResult_Columns := columns, queryResult_Data := data\<rparr>,
                           evs1)))))"

text \<open>
  The outside world of \<^verbatim>\<open>SaveResult\<close>: the save dialog, \<^verbatim>\<open>os.Create\<close>, the writes of
  the CSV writer, and \<^verbatim>\<open>fmt.Sprintf("%v", v)\<close> for a value that is not a string.
\<close>

record env_B =
  save_dialog_B :: "string + string"
  create_file :: "string \<Rightarrow> string option"
  csv_write :: "string list \<Rightarrow> string option"
  format_v :: "driver_value \<Rightarrow> string"

text \<open>Lines 600-615: one record of the CSV file.\<close>

definition csv_record :: "(driver_value \<Rightarrow> string) \<Rightarrow> string list \<Rightarrow> row \<Rightarrow> string list" where
  "csv_record fmt columns r =
     map (\<lambda>col. case r col of
                   None \<Rightarrow> []
                 | Some (VString v) \<Rightarrow> v
                 | Some v \<Rightarrow> fmt v) columns"

text \<open>Lines 599-619.\<close>

fun csv_records :: "env_B \<Rightarrow> string list \<Rightarrow> row list \<Rightarrow> event list \<Rightarrow> message option \<times> event list" where
  "csv_records e columns [] evs = (None, evs)"
| "csv_records e columns (r # rs) evs =
     (let fields = csv_record (format_v e) columns r;
          evs1 = evs @ [EvCsvWrite fields]
      in case csv_write e fields of
           Some err \<Rightarrow> (Some (ErrWriteRecord err), evs1)
         | None \<Rightarrow> csv_records e columns rs evs1)"

text \<open>Lines 565-622.\<close>

definition SaveResult_B :: "env_B \<Rightarrow> app_B \<Rightarrow> event list \<Rightarrow> message \<times> app_B \<times> event list" where
  "SaveResult_B e a evs =
     (if length (queryResult_Data a) = 0 then (MsgNothingToSave, a, evs)
      else
        let evs1 = evs @ [EvSaveDialog]
        in (case save_dialog_B e of
              Inl err \<Rightarrow> (ErrSaveDialog err, a, evs1)
            | Inr savePath \<Rightarrow>
                if savePath = [] then (MsgSaveCancelled, a, evs1)
                else
                  let evs2 = evs1 @ [EvCreateFile savePath]
                  in (case create_file e savePath of
                        Some err \<Rightarrow> (ErrCreateFile err, a, evs2)
                      | None \<Rightarrow>
                          let evs3 = evs2 @ [EvCsvWrite (queryResult_Columns a)]
                          in (case csv_write e (queryResult_Columns a) of
                                Some err \<Rightarrow> (ErrWriteHeader err, a, evs3)
                              | None \<Rightarrow>
                                  (case csv_records e (queryResult_Columns a)
                                          (queryResult_Data a) evs3 of
                                     (Some m, evs4) \<Rightarrow> (m, a, evs4)
                                   | (None, evs4) \<Rightarrow> (MsgSaved savePath, a, evs4))))))"

section \<open>Import\<close>

subsection \<open>The spreadsheet and the store engine\<close>

text \<open>
  A workbook as \<^verbatim>\<open>excelize\<close> presents it: the sheets in the order of
  \<^verbatim>\<open>GetSheetList()\<close>, each with the result of \<^verbatim>\<open>GetRows\<close>.
\<close>

type_synonym sheet = "string \<times> (string + string list list)"

text \<open>
  The calls that reach the store engine during an import. The statement texts are
  built from the table name, the column names and the values only, so a call is kept
  as these parts: \<^verbatim>\<open>DROP TABLE IF EXISTS t\<close>, \<^verbatim>\<open>CREATE TABLE t (c TEXT, ...)\<close>,
  \<^verbatim>\<open>db.Begin\<close>, \<^verbatim>\<open>tx.Prepare\<close> of the insert into \<open>t\<close>, \<^verbatim>\<open>stmt.Exec(values...)\<close>,
  \<^verbatim>\<open>tx.Rollback\<close>, \<^verbatim>\<open>tx.Commit\<close>, and the \<^verbatim>\<open>db.Exec(insertSQL, values...)\<close> of the
  caching variant.
\<close>

datatype db_op =
    OpDropTable string
  | OpCreateTable string "string list"
  | OpBegin
  | OpPrepare string "string list"
  | OpStmtExec string "string list"
  | OpRollback
  | OpCommit
  | OpInsert string "string list" "string list"

text \<open>
  The engine is an external collaborator; its state is modelled as far as the claims
  about an import speak of it: the committed rows of every table, the rows inserted
  by the open transaction, and the calls received. Whether a call fails is decided
  by the engine, which is a parameter: a function of the calls received so far and of
  the call. A failed call changes nothing. \<^verbatim>\<open>Rollback\<close> discards the rows of the open
  transaction whatever it returns (the program ignores its result), \<^verbatim>\<open>Commit\<close> adds
  them to their tables, and a statement run outside a transaction is committed at
  once.
\<close>

record engine =
  tables :: "string \<rightharpoonup> string list list"
  pending :: "(string \<times> string list) list option"
  oplog :: "db_op list"

type_synonym faults = "db_op list \<Rightarrow> db_op \<Rightarrow> string option"

definition insert_row :: "string \<times> string list \<Rightarrow> (string \<rightharpoonup> string list list) \<Rightarrow> (string \<rightharpoonup> string list list)" where
  "insert_row tv tb =
     (case tb (fst tv) of
        None \<Rightarrow> tb
      | Some rows \<Rightarrow> tb(fst tv \<mapsto> rows @ [snd tv]))"

fun apply_op :: "db_op \<Rightarrow> engine \<Rightarrow> engine" where
  "apply_op (OpDropTable t) g = g\<lparr>tables := (tables g)(t := None)\<rparr>"
| "apply_op (OpCreateTable t cols) g = g\<lparr>tables := (tables g)(t \<mapsto> [])\<rparr>"
| "apply_op OpBegin g = g\<lparr>pending := Some []\<rparr>"
| "apply_op (OpPrepare t cols) g = g"
| "apply_op (OpStmtExec t vals) g =
     (case pending g of
        None \<Rightarrow> g\<lparr>tables := insert_row (t, vals) (tables g)\<rparr>
      | Some ps \<Rightarrow> g\<lparr>pending := Some (ps @ [(t, vals)])\<rparr>)"
| "apply_op OpRollback g = g\<lparr>pending := None\<rparr>"
| "apply_op OpCommit g =
     (case pending g of
        None \<Rightarrow> g
      | Some ps \<Rightarrow> g\<lparr>tables := fold insert_row ps (tables g), pending := None\<rparr>)"
| "apply_op (OpInsert t cols vals) g = g\<lparr>tables := insert_row (t, vals) (tables g)\<rparr>"

definition run_op :: "faults \<Rightarrow> db_op \<Rightarrow> engine \<Rightarrow> string option \<times> engine" where
  "run_op f op g =
     (let g1 = g\<lparr>oplog := oplog g @ [op]\<rparr>
      in case f (oplog g) op of
           None \<Rightarrow> (None, apply_op op g1)
         | Some err \<Rightarrow> (Some err, if op = OpRollback then apply_op op g1 else g1))"

subsection \<open>Names and values\<close>

text \<open>\<^verbatim>\<open>%d\<close> of a non-negative number.\<close>

function decimal :: "nat \<Rightarrow> string" where
  "decimal n =
     (if n < 10 then [char_of (48 + n)]
      else decimal (n div 10) @ [char_of (48 + n mod 10)])"
  by pat_completeness auto
termination
  by (relation "measure id") auto

declare decimal.simps [simp del]

text \<open>Lines 87 and 439; lines 104-107 and 458-461.\<close>

definition table_name :: "nat \<Rightarrow> string" where
  "table_name sheetIdx = ''sheet'' @ decimal (sheetIdx + 1)"

definition column_names :: "nat \<Rightarrow> string list" where
  "column_names colCount = map (\<lambda>i. ''column'' @ decimal (i + 1)) [0..<colCount]"

text \<open>Lines 140-142 and 476-478: the loop \<^verbatim>\<open>for len(row) < colCount\<close>.\<close>

function pad_row :: "nat \<Rightarrow> string list \<Rightarrow> string list" where
  "pad_row colCount row =
     (if length row < colCount then pad_row colCount (row @ [[]]) else row)"
  by pat_completeness auto
termination
  by (relation "measure (\<lambda>(colCount, row). colCount - length row)") auto

declare pad_row.simps [simp del]

text \<open>
  Lines 139-147 and 475-485: the values handed to the insert. The padded row has at
  least \<open>colCount\<close> entries, so \<^verbatim>\<open>row[i]\<close> is in range.
\<close>

definition insert_values :: "nat \<Rightarrow> string list \<Rightarrow> string list" where
  "insert_values colCount row0 =
     (let row = pad_row colCount row0 in map (\<lambda>i. row ! i) [0..<colCount])"

subsection \<open>The paginating variant\<close>

text \<open>Lines 138-154, from \<open>rowIdx\<close> on.\<close>

fun insert_rows :: "faults \<Rightarrow> string \<Rightarrow> nat \<Rightarrow> nat \<Rightarrow> string list list \<Rightarrow> engine \<Rightarrow> message option \<times> engine" where
  "insert_rows f t colCount rowIdx [] g = (None, g)"
| "insert_rows f t colCount rowIdx (row # rest) g =
     (case run_op f (OpStmtExec t (insert_values colCount row)) g of
        (Some err, g1) \<Rightarrow> (Some (ErrInsertRow rowIdx err), snd (run_op f OpRollback g1))
      | (None, g1) \<Rightarrow> insert_rows f t colCount (rowIdx + 1) rest g1)"

text \<open>
  Lines 87-159: one iteration of the loop over the sheets. The result is \<open>Inl\<close> when
  the function returns or panics, and \<open>Inr\<close> with the new \<^verbatim>\<open>successCount\<close> when the
  loop goes on. With no column, the slice expression of line 129 is
  \<^verbatim>\<open>""[:-1]\<close>, which panics.
\<close>

definition import_sheet :: "faults \<Rightarrow> nat \<Rightarrow> sheet \<Rightarrow> nat \<Rightarrow> engine \<Rightarrow> (message outcome + nat) \<times> engine" where
  "import_sheet f sheetIdx sh successCount g =
     (let tableName = table_name sheetIdx in
      case snd sh of
        Inl err \<Rightarrow> (Inl (Returned (ErrReadSheet (fst sh) err)), g)
      | Inr [] \<Rightarrow> (Inr successCount, g)
      | Inr (header # dataRows) \<Rightarrow>
          (case run_op f (OpDropTable tableName) g of
             (Some err, g1) \<Rightarrow> (Inl (Returned (ErrDropTable tableName err)), g1)
           | (None, g1) \<Rightarrow>
               let colCount = length header;
                   columns = column_names colCount
               in (case run_op f (OpCreateTable tableName columns) g1 of
                     (Some err, g2) \<Rightarrow> (Inl (Returned (ErrCreateTable tableName err)), g2)
                   | (None, g2) \<Rightarrow>
                       (case run_op f OpBegin g2 of
                          (Some err, g3) \<Rightarrow> (Inl (Returned (ErrBegin err)), g3)
                        | (None, g3) \<Rightarrow>
                            if colCount = 0 then (Inl (Panicked SliceBounds), g3)
                            else
                              (case run_op f (OpPrepare tableName columns) g3 of
                                 (Some err, g4) \<Rightarrow>
                                   (Inl (Returned (ErrPrepare err)), snd (run_op f OpRollback g4))
                               | (None, g4) \<Rightarrow>
                                   (case insert_rows f tableName colCount 1 dataRows g4 of
                                      (Some m, g5) \<Rightarrow> (Inl (Returned m), g5)
                                    | (None, g5) \<Rightarrow>
                                        (case run_op f OpCommit g5 of
                                           (Some err, g6) \<Rightarrow> (Inl (Returned (ErrCommit err)), g6)
                                         | (None, g6) \<Rightarrow> (Inr (successCount + 1), g6))))))))"

text \<open>Lines 86-162: the loop over the sheets and the final message.\<close>

fun import_sheets :: "faults \<Rightarrow> nat \<Rightarrow> nat \<Rightarrow> nat \<Rightarrow> sheet list \<Rightarrow> engine \<Rightarrow> message outcome \<times> engine" where
  "import_sheets f n sheetIdx successCount [] g = (Returned (MsgImported successCount n), g)"
| "import_sheets f n sheetIdx successCount (sh # rest) g =
     (case import_sheet f sheetIdx sh successCount g of
        (Inl out, g1) \<Rightarrow> (out, g1)
      | (Inr successCount1, g1) \<Rightarrow> import_sheets f n (sheetIdx + 1) successCount1 rest g1)"

text \<open>The file dialog and \<^verbatim>\<open>excelize.OpenFile\<close>.\<close>

record import_env =
  open_dialog :: "string + string"
  open_file :: "string \<Rightarrow> string + sheet list"

text \<open>Lines 61-163.\<close>

definition OpenExcel :: "import_env \<Rightarrow> faults \<Rightarrow> app \<Rightarrow> engine \<Rightarrow> message outcome \<times> app \<times> engine" where
  "OpenExcel ie f a g =
     (if \<not> db a then (Returned ErrDbNotInitialised, a, g)
      else
        (case open_dialog ie of
           Inl err \<Rightarrow> (Returned (ErrFileDialog err), a, g)
         | Inr filePath \<Rightarrow>
             if filePath = [] then (Returned MsgNoFileChosen, a, g)
             else
               (case open_file ie filePath of
                  Inl err \<Rightarrow> (Returned (ErrParseFailed err), a, g)
                | Inr sheets \<Rightarrow>
                    (case import_sheets f (length sheets) 0 0 sheets g of
                       (out, g1) \<Rightarrow> (out, a, g1)))))"

subsection \<open>The caching variant\<close>

text \<open>Lines 474-497: every row is inserted by a statement of its own.\<close>

fun insert_rows_B :: "faults \<Rightarrow> string \<Rightarrow> nat \<Rightarrow> string list list \<Rightarrow> engine \<Rightarrow> message option \<times> engine" where
  "insert_rows_B f t colCount [] g = (None, g)"
| "insert_rows_B f t colCount (row # rest) g =
     (case run_op f (OpInsert t (column_names colCount) (insert_values colCount row)) g of
        (Some err, g1) \<Rightarrow> (Some (ErrInsert err), g1)
      | (None, g1) \<Rightarrow> insert_rows_B f t colCount rest g1)"

text \<open>
  Lines 439-497: one iteration of the loop over the sheets; \<open>Inr ()\<close> when the loop
  goes on. The connection is not checked: the first \<^verbatim>\<open>Exec\<close> on the nil connection
  panics.
\<close>

definition import_sheet_B :: "faults \<Rightarrow> bool \<Rightarrow> nat \<Rightarrow> sheet \<Rightarrow> engine \<Rightarrow> (message outcome + unit) \<times> engine" where
  "import_sheet_B f dbOpen sheetIdx sh g =
     (let tableName = table_name sheetIdx in
      case snd sh of
        Inl err \<Rightarrow> (Inl (Returned (ErrReadSheet (fst sh) err)), g)
      | Inr [] \<Rightarrow> (Inr (), g)
      | Inr (header # dataRows) \<Rightarrow>
          if \<not> dbOpen then (Inl (Panicked NilDereference), g)
          else
            (case run_op f (OpDropTable tableName) g of
               (Some err, g1) \<Rightarrow> (Inl (Returned (ErrDropTable tableName err)), g1)
             | (None, g1) \<Rightarrow>
                 let colCount = length header;
                     columns = column_names colCount
                 in (case run_op f (OpCreateTable tableName columns) g1 of
                       (Some err, g2) \<Rightarrow> (Inl (Returned (ErrCreateTable tableName err)), g2)
                     | (None, g2) \<Rightarrow>
                         (case insert_rows_B f tableName colCount dataRows g2 of
                            (Some m, g3) \<Rightarrow> (Inl (Returned m), g3)
                          | (None, g3) \<Rightarrow> (Inr (), g3)))))"

text \<open>Lines 438-500.\<close>

fun import_sheets_B :: "faults \<Rightarrow> bool \<Rightarrow> nat \<Rightarrow> nat \<Rightarrow> sheet list \<Rightarrow> engine \<Rightarrow> message outcome \<times> engine" where
  "import_sheets_B f dbOpen n sheetIdx [] g = (Returned (MsgImported_B n), g)"
| "import_sheets_B f dbOpen n sheetIdx (sh # rest) g =
     (case import_sheet_B f dbOpen sheetIdx sh g of
        (Inl out, g1) \<Rightarrow> (out, g1)
      | (Inr u, g1) \<Rightarrow> import_sheets_B f dbOpen n (sheetIdx + 1) rest g1)"

text \<open>Lines 416-501.\<close>

definition OpenExcel_B :: "import_env \<Rightarrow> faults \<Rightarrow> app_B \<Rightarrow> engine \<Rightarrow> message outcome \<times> app_B \<times> engine" where
  "OpenExcel_B ie f a g =
     (case open_dialog ie of
        Inl err \<Rightarrow> (Returned (ErrFileDialog err), a, g)
      | Inr filePath \<Rightarrow>
          if filePath = [] then (Returned MsgNoFileChosen, a, g)
          else
            (case open_file ie filePath of
               Inl err \<Rightarrow> (Returned (ErrParseFailed err), a, g)
             | Inr sheets \<Rightarrow>
                 (case import_sheets_B f (db_B a) (length sheets) 0 sheets g of
                    (out, g1) \<Rightarrow> (out, a, g1))))"

section \<open>The specification's words\<close>

text \<open>
  The page as the specification states it, on unbounded integers:
  \<open>start = (pageNumber - 1) * pageSize\<close>, \<open>end = min (start + pageSize) total\<close>, the rows
  from \<open>start\<close> up to \<open>end\<close>, and no row when \<open>start \<ge> total\<close>.
\<close>

definition spec_page :: "'a list \<Rightarrow> int \<Rightarrow> int \<Rightarrow> 'a list" where
  "spec_page rows pageNumber pageSize =
     (let tot = int (length rows);
          start = (pageNumber - 1) * pageSize;
          end = min (start + pageSize) tot
      in if start \<ge> tot then [] else take (nat (end - start)) (drop (nat start) rows))"

text \<open>The number of pages as the specification states it: the ceiling of the quotient.\<close>

definition spec_totalPages :: "int \<Rightarrow> int \<Rightarrow> int" where
  "spec_totalPages tot pageSize = \<lceil>rat_of_int tot / rat_of_int pageSize\<rceil>"

text \<open>
  The row mapping that holds, for every column, the normalised value at the column's
  position; of two columns with one name, the later one is kept.
\<close>

definition stored_row :: "(driver_value \<Rightarrow> driver_value) \<Rightarrow> string list \<Rightarrow> driver_value list \<Rightarrow> row" where
  "stored_row nv columns vals = map_of (rev (zip columns (map nv vals)))"

text \<open>
  The normalisation of the specification: a byte sequence becomes its text, nil becomes
  the empty string, every other value is kept.
\<close>

fun normalize_value :: "driver_value \<Rightarrow> driver_value" where
  "normalize_value (VBytes b) = VString b"
| "normalize_value VNil = VString []"
| "normalize_value v = v"

text \<open>Normalisation that converts a byte sequence to text and leaves every other value.\<close>

fun bytes_to_text :: "driver_value \<Rightarrow> driver_value" where
  "bytes_to_text (VBytes b) = VString b"
| "bytes_to_text v = v"

text \<open>The code points of the column letters \<open>A\<close> to \<open>Z\<close>.\<close>

definition is_column_letter :: "nat \<Rightarrow> bool" where
  "is_column_letter c = (65 \<le> c \<and> c \<le> 90)"

text \<open>The calls that insert a row, and the sheets that have a row.\<close>

fun is_insert :: "db_op \<Rightarrow> bool" where
  "is_insert (OpStmtExec t vals) = True"
| "is_insert (OpInsert t cols vals) = True"
| "is_insert _ = False"

fun has_rows :: "sheet \<Rightarrow> bool" where
  "has_rows (name, Inr (header # dataRows)) = True"
| "has_rows _ = False"

section \<open>Sample inputs\<close>

definition sample_cursor :: cursor where
  "sample_cursor =
     \<lparr>cur_columns = Inr [''id'', ''name''],
      cur_rows = [Inr [VInt64 1, VBytes ''ann''], Inr [VInt64 2, VNil], Inr [VInt64 3, VString ''cy'']],
      cur_err = None\<rparr>"

definition sample_rows :: "row list" where
  "sample_rows =
     [[''id'' \<mapsto> VInt64 1, ''name'' \<mapsto> VString ''ann''],
      [''id'' \<mapsto> VInt64 2, ''name'' \<mapsto> VString []],
      [''id'' \<mapsto> VInt64 3, ''name'' \<mapsto> VString ''cy'']]"

text \<open>The rows that keep nil as it is.\<close>

definition sample_rows_B :: "row list" where
  "sample_rows_B =
     [[''id'' \<mapsto> VInt64 1, ''name'' \<mapsto> VString ''ann''],
      [''id'' \<mapsto> VInt64 2, ''name'' \<mapsto> VNil],
      [''id'' \<mapsto> VInt64 3, ''name'' \<mapsto> VString ''cy'']]"

definition empty_cursor :: cursor where
  "empty_cursor = \<lparr>cur_columns = Inr [''id'', ''name''], cur_rows = [], cur_err = None\<rparr>"

definition sample_env :: env where
  "sample_env =
     \<lparr>db_query = (\<lambda>q. if q = ''SELECT * FROM sheet1'' then Inr sample_cursor
                      else if q = ''SELECT * FROM sheet1 WHERE 1 = 0'' then Inr empty_cursor
                      else Inl ''syntax error''),
      save_dialog = Inr ''out.xlsx'',
      save_as = (\<lambda>path cells. None)\<rparr>"

definition sample_env_B :: env_B where
  "sample_env_B =
     \<lparr>save_dialog_B = Inr ''out.csv'',
      create_file = (\<lambda>path. None),
      csv_write = (\<lambda>fields. None),
      format_v = (\<lambda>v. ''?'')\<rparr>"

definition sample_app :: app where
  "sample_app =
     \<lparr>ctx = 0, db = True, currentPage = 1, currentPageSize = 20, currentSQL = ''SELECT 1''\<rparr>"

definition sample_app_B :: app_B where
  "sample_app_B = \<lparr>ctx_B = 0, db_B = True, queryResult_Columns = [], queryResult_Data = []\<rparr>"

definition empty_engine :: engine where
  "empty_engine = \<lparr>tables = Map.empty, pending = None, oplog = []\<rparr>"

definition no_faults :: faults where
  "no_faults ops op = None"

text \<open>
  The scenario of the specification: a sheet with a header of two columns and three
  data rows, followed by a sheet with no row.
\<close>

definition sample_sheets :: "sheet list" where
  "sample_sheets =
     [(''People'', Inr [[''Name'', ''Age''], [''ann'', ''31''], [''bob''], [''cy'', ''27'', ''x'']]),
      (''Empty'', Inr [])]"

definition sample_import_env :: import_env where
  "sample_import_env = \<lparr>open_dialog = Inr ''book.xlsx'', open_file = (\<lambda>path. Inr sample_sheets)\<rparr>"

text \<open>An engine that refuses the insert of the second data row of the sample.\<close>

definition second_row_fault :: faults where
  "second_row_fault ops op =
     (case op of
        OpStmtExec t vals \<Rightarrow> if vals = [''bob'', []] then Some ''disk full'' else None
      | OpInsert t cols vals \<Rightarrow> if vals = [''bob'', []] then Some ''disk full'' else None
      | _ \<Rightarrow> None)"

section \<open>Machine arithmetic within range\<close>

lemma wrap64_id: "- (2 ^ 63) \<le> x \<Longrightarrow> x < 2 ^ 63 \<Longrightarrow> wrap64 x = x"
  by (simp add: wrap64_def)

lemma wrap64_pred: "wrap64 (wrap64 x - 1) = wrap64 (x - 1)"
  by (simp add: wrap64_def mod_diff_left_eq algebra_simps)

lemma ceil_div:
  assumes "0 < (s::int)"
  shows "(t + s - 1) div s = - (- t div s)"
proof (cases "t mod s = 0")
  case True
  then have "s * (t div s) = t" by auto
  then have e: "t + s - 1 = s * (t div s) + (s - 1)" by linarith
  have "(t + s - 1) div s = t div s"
    by (rule int_div_pos_eq [OF e]) (use assms in linarith)+
  then show ?thesis
    using True assms by (simp add: zdiv_zminus1_eq_if)
next
  case False
  have "0 \<le> t mod s" using assms by simp
  with False have m1: "0 < t mod s" by linarith
  have m2: "t mod s < s" using assms by simp
  have "s * (t div s) + t mod s = t" by simp
  then have e: "t + s - 1 = s * (t div s + 1) + (t mod s - 1)"
    by (simp add: algebra_simps)
  have "(t + s - 1) div s = t div s + 1"
    by (rule int_div_pos_eq [OF e]) (use assms m1 m2 in linarith)+
  then show ?thesis
    using False assms by (simp add: zdiv_zminus1_eq_if)
qed

lemma spec_totalPages_div: "0 < s \<Longrightarrow> spec_totalPages t s = (t + s - 1) div s"
  by (simp add: spec_totalPages_def ceiling_divide_eq_div ceil_div)

lemma page_slice_in_range:
  assumes p: "1 \<le> p" and s: "1 \<le> s" and ps: "(p - 1) * s < 2 ^ 63"
    and ts: "int (length rows) + s - 1 < 2 ^ 63"
  shows "page_slice rows p s = Inr (spec_totalPages (int (length rows)) s, spec_page rows p s)"
proof -
  let ?t = "int (length rows)"
  have B: "(0::int) < 2 ^ 63" by simp
  have "(p - 1) * 1 \<le> (p - 1) * s"
    using p s by (intro mult_left_mono) simp_all
  then have le: "p - 1 \<le> (p - 1) * s" by simp
  have nn: "0 \<le> (p - 1) * s" using p s by simp
  have p1: "sub64 p 1 = p - 1"
    unfolding sub64_def by (rule wrap64_id) (use p le ps B in linarith)+
  have st: "mul64 (p - 1) s = (p - 1) * s"
    unfolding mul64_def by (rule wrap64_id) (use nn ps B in linarith)+
  have "sub64 (add64 ?t s) 1 = wrap64 (?t + s - 1)"
    by (simp add: sub64_def add64_def wrap64_pred)
  also have "\<dots> = ?t + s - 1"
    by (rule wrap64_id) (use ts s B in linarith)+
  finally have tp: "sub64 (add64 ?t s) 1 = ?t + s - 1" .
  have dv: "(?t + s - 1) div s \<le> ?t + s - 1"
    using s int_div_le_self [of "?t + s - 1" s] by (cases "?t + s - 1 = 0") auto
  have d0: "0 \<le> (?t + s - 1) div s"
    using s by (simp add: pos_imp_zdiv_nonneg_iff)
  have "quo64 (?t + s - 1) s = wrap64 ((?t + s - 1) div s)"
    using s by (cases "?t + s - 1 = 0") (simp_all add: quo64_def)
  also have "\<dots> = (?t + s - 1) div s"
    by (rule wrap64_id) (use d0 dv ts B in linarith)+
  finally have q: "quo64 (?t + s - 1) s = (?t + s - 1) div s" .
  show ?thesis
  proof (cases "(p - 1) * s < ?t")
    case True
    have en: "add64 ((p - 1) * s) s = (p - 1) * s + s"
      unfolding add64_def by (rule wrap64_id) (use True nn s ts B in linarith)+
    show ?thesis
      using s nn True
      by (auto simp: page_slice_def spec_page_def go_slice_def Let_def p1 st en tp q
          spec_totalPages_div min_def)
  next
    case False
    then show ?thesis
      using s
      by (simp add: page_slice_def spec_page_def Let_def p1 st tp q spec_totalPages_div)
  qed
qed

section \<open>Evaluation of the sample inputs\<close>

lemma TrimSpace_select: "TrimSpace ''  SELECT * FROM sheet1 '' = ''SELECT * FROM sheet1''"
  by (simp add: TrimSpace_def rune_len_def space_runes_def)

lemma TrimSpace_select_none:
  "TrimSpace ''SELECT * FROM sheet1 WHERE 1 = 0'' = ''SELECT * FROM sheet1 WHERE 1 = 0''"
  by (simp add: TrimSpace_def rune_len_def space_runes_def)

lemma TrimSpace_blank: "TrimSpace ''   '' = []"
  by (simp add: TrimSpace_def rune_len_def space_runes_def)

lemma page_materialize_sample:
  "page_materialize sample_cursor = Inr ([''id'', ''name''], sample_rows)"
  by (simp add: page_materialize_def sample_cursor_def sample_rows_def scan_row_def)

lemma export_materialize_sample:
  "export_materialize sample_cursor = Inr ([''id'', ''name''], sample_rows)"
  by (simp add: export_materialize_def sample_cursor_def sample_rows_def scan_row_def)

section \<open>Pagination\<close>

text \<open>
  Claim C1, within the range of \<^verbatim>\<open>int\<close>. For a page number \<open>p \<ge> 1\<close> and a page
  size \<open>s \<ge> 1\<close> such that \<open>(p - 1) * s\<close> and \<open>total + s - 1\<close> are below \<open>2 ^ 63\<close>, a paginated query
  whose statement the store answers and whose rows are materialised returns the rows
  from \<open>(p - 1) * s\<close> up to \<open>min (start + s) total\<close>, no row and no error when the start is
  at or beyond the total, and as the number of pages the ceiling of \<open>total / s\<close> (which
  is 0 for a total of 0).
\<close>

theorem C1_page_within_int_range:
  assumes "db a" and "TrimSpace q \<noteq> []"
    and "db_query e (TrimSpace q) = Inr cur"
    and "page_materialize cur = Inr (columns, fullData)"
    and "1 \<le> p" and "1 \<le> s" and "(p - 1) * s < 2 ^ 63"
    and "int (length fullData) + s - 1 < 2 ^ 63"
  shows "ExecuteSQLWithPage e q p s a evs =
     (Returned (PageOk
        \<lparr>pv_columns = columns, pv_data = spec_page fullData p s,
         pv_total = int (length fullData),
         pv_totalPages = spec_totalPages (int (length fullData)) s,
         pv_currentPage = p, pv_pageSize = s,
         pv_message = MsgPage (int (length fullData)) p (spec_totalPages (int (length fullData)) s)\<rparr>),
      a\<lparr>currentSQL := TrimSpace q, currentPage := p, currentPageSize := s\<rparr>,
      evs @ [EvQuery (TrimSpace q)])
     \<and> spec_totalPages 0 s = 0"
  using assms page_slice_in_range [of p s fullData]
  by (simp add: ExecuteSQLWithPage_def Let_def spec_totalPages_def)

text \<open>
  The scenario of the specification: page 2 of size 2 of three rows holds the third
  row, and there are two pages.
\<close>

theorem C1_page_within_int_range_witness:
  "ExecuteSQLWithPage sample_env ''  SELECT * FROM sheet1 '' 2 2 sample_app [] =
     (Returned (PageOk
        \<lparr>pv_columns = [''id'', ''name''], pv_data = [sample_rows ! 2],
         pv_total = 3, pv_totalPages = 2, pv_currentPage = 2, pv_pageSize = 2,
         pv_message = MsgPage 3 2 2\<rparr>),
      sample_app\<lparr>currentSQL := ''SELECT * FROM sheet1'', currentPage := 2, currentPageSize := 2\<rparr>,
      [EvQuery ''SELECT * FROM sheet1''])"
proof -
  have h1: "db sample_app"
    by (simp add: sample_app_def)
  have h2: "TrimSpace ''  SELECT * FROM sheet1 '' \<noteq> []"
    by (simp add: TrimSpace_select)
  have h3: "db_query sample_env (TrimSpace ''  SELECT * FROM sheet1 '') = Inr sample_cursor"
    by (simp add: TrimSpace_select sample_env_def)
  have n: "length sample_rows = 3"
    by (simp add: sample_rows_def)
  have pg: "spec_page sample_rows 2 2 = [sample_rows ! 2]"
    by (simp add: spec_page_def sample_rows_def)
  have tp: "spec_totalPages 3 2 = 2"
    by (simp add: spec_totalPages_div)
  show ?thesis
    using C1_page_within_int_range [OF h1 h2 h3 page_materialize_sample, of 2 2 "[]"]
    by (simp add: n pg tp TrimSpace_select)
qed

text \<open>
  Claim C1 as stated fails where \<^verbatim>\<open>(pageNum - 1) * pageSize\<close> leaves the range of
  \<^verbatim>\<open>int\<close>: with page number \<open>2 ^ 32 + 1\<close> and page size \<open>2 ^ 32\<close> the product \<open>2 ^ 64\<close>
  wraps to 0, and the call returns all three rows, where the claim's start \<open>2 ^ 64\<close> is
  beyond the total and its page empty.
\<close>

theorem C1_counterexample_wrapped_start:
  "ExecuteSQLWithPage sample_env ''  SELECT * FROM sheet1 '' 4294967297 4294967296 sample_app [] =
     (Returned (PageOk
        \<lparr>pv_columns = [''id'', ''name''], pv_data = sample_rows,
         pv_total = 3, pv_totalPages = 1, pv_currentPage = 4294967297,
         pv_pageSize = 4294967296, pv_message = MsgPage 3 4294967297 1\<rparr>),
      sample_app\<lparr>currentSQL := ''SELECT * FROM sheet1'', currentPage := 4294967297,
        currentPageSize := 4294967296\<rparr>,
      [EvQuery ''SELECT * FROM sheet1''])
   \<and> (4294967297 - 1) * 4294967296 \<ge> int (length sample_rows)
   \<and> spec_page sample_rows 4294967297 4294967296 = []
   \<and> sample_rows \<noteq> []"
proof -
  have n: "length sample_rows = 3"
    by (simp add: sample_rows_def)
  have sl: "page_slice sample_rows 4294967297 4294967296 = Inr (1, sample_rows)"
    by (simp add: page_slice_def Let_def n add64_def sub64_def mul64_def quo64_def
        wrap64_def go_slice_def)
  show ?thesis
    by (simp add: ExecuteSQLWithPage_def Let_def TrimSpace_select sample_env_def
        page_materialize_sample sl n spec_page_def sample_app_def)
      (simp add: sample_rows_def)
qed

section \<open>The two materialisations\<close>

lemma export_row_page_row: "export_row columns vals r = page_row columns vals r"
proof (induction columns arbitrary: vals r)
  case Nil
  show ?case by simp
next
  case (Cons col cols)
  show ?case
  proof (cases vals)
    case Nil
    then show ?thesis by simp
  next
    case (Cons val rest)
    then show ?thesis
      using Cons.IH by (cases val) (simp_all add: fun_upd_def)
  qed
qed

lemma export_rows_page_rows: "export_rows columns rs fullData = page_rows columns rs fullData"
  by (induction rs arbitrary: fullData) (simp_all add: export_row_page_row split: sum.splits)

lemma export_materialize_page_materialize: "export_materialize cur = page_materialize cur"
  by (simp add: export_materialize_def page_materialize_def export_rows_page_rows
      split: sum.splits)

lemma page_slice_is_slice:
  "page_slice rows p s = Inr (tp, page) \<Longrightarrow> \<exists>i n. page = take n (drop i rows)"
proof -
  assume a: "page_slice rows p s = Inr (tp, page)"
  have "page = [] \<or> (\<exists>lo hi. go_slice rows lo hi = Inr page)"
    using a by (auto simp: page_slice_def Let_def split: if_splits sum.splits)
  then show ?thesis
  proof
    assume "page = []"
    then have "page = take 0 (drop 0 rows)" by simp
    then show ?thesis by blast
  next
    assume "\<exists>lo hi. go_slice rows lo hi = Inr page"
    then show ?thesis
      by (auto simp: go_slice_def split: if_splits)
  qed
qed

text \<open>What a call that returned a page, or exported a file, has gone through.\<close>

lemma ExecuteSQLWithPage_PageOk:
  assumes "ExecuteSQLWithPage e q p s a evs = (Returned (PageOk v), a', evs')"
  shows "\<exists>cur rows.
           db a \<and> TrimSpace q \<noteq> [] \<and> db_query e (TrimSpace q) = Inr cur
           \<and> page_materialize cur = Inr (pv_columns v, rows)
           \<and> page_slice rows p s = Inr (pv_totalPages v, pv_data v)
           \<and> pv_total v = int (length rows)
           \<and> evs' = evs @ [EvQuery (TrimSpace q)]"
  using assms
  by (auto simp: ExecuteSQLWithPage_def Let_def split: if_splits sum.splits prod.splits)

lemma page_rows_Inl:
  "page_rows columns rs fullData = Inl m \<Longrightarrow> \<exists>err. m = ErrScanFailed err"
  by (induction rs arbitrary: fullData) (auto split: sum.splits)

lemma export_materialize_Inl:
  "export_materialize cur = Inl m \<Longrightarrow>
     (\<exists>err. m = ErrColumnsFailed err) \<or> (\<exists>err. m = ErrScanFailed err)
     \<or> (\<exists>err. m = ErrIterFailed err)"
  by (auto simp: export_materialize_page_materialize page_materialize_def
      split: sum.splits option.splits dest: page_rows_Inl)

lemma ExportExcelBySQL_MsgExported:
  assumes "ExportExcelBySQL e q a evs = (MsgExported path n, a', evs')"
  shows "\<exists>cur columns rows.
           db a \<and> TrimSpace q \<noteq> [] \<and> db_query e (TrimSpace q) = Inr cur
           \<and> export_materialize cur = Inr (columns, rows)
           \<and> rows \<noteq> [] \<and> n = length rows \<and> a' = a
           \<and> evs' = evs @ [EvQuery (TrimSpace q), EvSaveDialog,
                 EvSaveAs path (header_cells columns @ data_cells columns rows)]"
  using assms
  by (auto simp: ExportExcelBySQL_def Let_def
      split: if_splits sum.splits prod.splits option.splits
      dest: export_materialize_Inl)

section \<open>Validation of the paginated query\<close>

lemma ExecuteSQLWithPage_blank:
  "TrimSpace q = [] \<Longrightarrow>
   ExecuteSQLWithPage e q p s a evs =
     (Returned (PageError (if db a then ErrNoSQL else ErrDbNotInitialised)), a, evs)"
  by (simp add: ExecuteSQLWithPage_def)

text \<open>
  Claim C3 at a page size that is not positive. The page size is not checked: with
  page size 0 the statement reaches the store and the division of line 237 panics;
  with page size -1 the statement reaches the store and the slice expression of
  line 247 panics.
\<close>

theorem C3_page_size_not_checked:
  "ExecuteSQLWithPage sample_env ''  SELECT * FROM sheet1 '' 1 0 sample_app [] =
     (Panicked DivideByZero,
      sample_app\<lparr>currentSQL := ''SELECT * FROM sheet1'', currentPage := 1, currentPageSize := 0\<rparr>,
      [EvQuery ''SELECT * FROM sheet1''])
   \<and> ExecuteSQLWithPage sample_env ''  SELECT * FROM sheet1 '' 1 (- 1) sample_app [] =
     (Panicked SliceBounds,
      sample_app\<lparr>currentSQL := ''SELECT * FROM sheet1'', currentPage := 1, currentPageSize := - 1\<rparr>,
      [EvQuery ''SELECT * FROM sheet1''])"
proof -
  have n: "length sample_rows = 3"
    by (simp add: sample_rows_def)
  have z: "page_slice sample_rows 1 0 = Inl DivideByZero"
    by (simp add: page_slice_def)
  have m: "page_slice sample_rows 1 (- 1) = Inl SliceBounds"
    by (simp add: page_slice_def Let_def n add64_def sub64_def mul64_def quo64_def
        wrap64_def go_slice_def)
  show ?thesis
    by (simp add: ExecuteSQLWithPage_def Let_def TrimSpace_select sample_env_def
        page_materialize_sample z m sample_app_def)
qed

section \<open>Export of an empty result\<close>

text \<open>
  Claim C6. When the statement of an export request is answered with no row, the
  export returns the empty-result message, and the only event of the call is the
  query: no save dialog is shown and no file is saved. In the caching variant,
  \<^verbatim>\<open>SaveResult\<close> after a query that yielded no row returns its no-result message with
  no event at all.
\<close>

theorem C6_empty_result_not_exported:
  assumes "TrimSpace q \<noteq> []" and "db_query e (TrimSpace q) = Inr cur"
    and "cur_columns cur = Inr columns" and "cur_rows cur = []" and "cur_err cur = None"
  shows "(db a \<longrightarrow>
            ExportExcelBySQL e q a evs = (ErrExportEmpty, a, evs @ [EvQuery (TrimSpace q)]))
       \<and> (db_B b \<longrightarrow>
            (\<exists>b'. ExecuteSQL_B e q b evs =
                     (Returned (QueryOk columns [] (MsgQueryCount 0)), b', evs @ [EvQuery (TrimSpace q)])
                 \<and> SaveResult_B eb b' evs2 = (MsgNothingToSave, b', evs2)))"
  using assms
  by (simp add: ExportExcelBySQL_def export_materialize_def ExecuteSQL_B_def SaveResult_B_def Let_def)

theorem C6_empty_result_not_exported_witness:
  "ExportExcelBySQL sample_env ''SELECT * FROM sheet1 WHERE 1 = 0'' sample_app [] =
     (ErrExportEmpty, sample_app, [EvQuery ''SELECT * FROM sheet1 WHERE 1 = 0''])
   \<and> (\<exists>b'. ExecuteSQL_B sample_env ''SELECT * FROM sheet1 WHERE 1 = 0'' sample_app_B [] =
              (Returned (QueryOk [''id'', ''name''] [] (MsgQueryCount 0)), b',
               [EvQuery ''SELECT * FROM sheet1 WHERE 1 = 0''])
          \<and> SaveResult_B sample_env_B b' [] = (MsgNothingToSave, b', []))"
proof -
  have h1: "TrimSpace ''SELECT * FROM sheet1 WHERE 1 = 0'' \<noteq> []"
    by (simp add: TrimSpace_select_none)
  have h2: "db_query sample_env (TrimSpace ''SELECT * FROM sheet1 WHERE 1 = 0'') = Inr empty_cursor"
    by (simp add: TrimSpace_select_none sample_env_def)
  have h3: "cur_columns empty_cursor = Inr [''id'', ''name'']"
    and h4: "cur_rows empty_cursor = []" and h5: "cur_err empty_cursor = None"
    by (simp_all add: empty_cursor_def)
  have d: "db sample_app" "db_B sample_app_B"
    by (simp_all add: sample_app_def sample_app_B_def)
  show ?thesis
    using C6_empty_result_not_exported [OF h1 h2 h3 h4 h5, of sample_app "[]" sample_app_B
        sample_env_B "[]"] d
    by (simp add: TrimSpace_select_none)
qed

section \<open>Export and pages of one statement\<close>

text \<open>
  Claim C8. The two paths materialise the store's answer alike. When an export of a
  statement has saved a file and a paginated query of the same statement against the
  same store has returned a page, then the header written is the page's column
  sequence, the rows written are the full data in their order, their number is the
  page's total, and the page is a run of consecutive rows of them.
\<close>

theorem C8_export_and_page_agree:
  assumes "ExportExcelBySQL e q a evs = (MsgExported path n, a', evs')"
    and "ExecuteSQLWithPage e q p s b evs2 = (Returned (PageOk v), b', evs2')"
  shows "\<exists>cur rows i k.
           db_query e (TrimSpace q) = Inr cur
           \<and> export_materialize cur = Inr (pv_columns v, rows)
           \<and> page_materialize cur = Inr (pv_columns v, rows)
           \<and> evs' = evs @ [EvQuery (TrimSpace q), EvSaveDialog,
                 EvSaveAs path (header_cells (pv_columns v) @ data_cells (pv_columns v) rows)]
           \<and> n = length rows \<and> pv_total v = int (length rows)
           \<and> pv_data v = take k (drop i rows)"
proof -
  from ExportExcelBySQL_MsgExported [OF assms(1)]
  obtain cur columns rows where
    x: "db_query e (TrimSpace q) = Inr cur" "export_materialize cur = Inr (columns, rows)"
      "n = length rows"
      "evs' = evs @ [EvQuery (TrimSpace q), EvSaveDialog,
         EvSaveAs path (header_cells columns @ data_cells columns rows)]"
    by blast
  from ExecuteSQLWithPage_PageOk [OF assms(2)]
  obtain cur2 rows2 where
    y: "db_query e (TrimSpace q) = Inr cur2" "page_materialize cur2 = Inr (pv_columns v, rows2)"
      "page_slice rows2 p s = Inr (pv_totalPages v, pv_data v)" "pv_total v = int (length rows2)"
    by blast
  from x(1) y(1) have c: "cur2 = cur" by simp
  with x(2) y(2) have r: "columns = pv_columns v" "rows2 = rows"
    by (simp_all add: export_materialize_page_materialize)
  from page_slice_is_slice [OF y(3)] r obtain i k where "pv_data v = take k (drop i rows)"
    by blast
  with x y c r show ?thesis
    by (auto simp: export_materialize_page_materialize)
qed

lemma sample_page_2:
  "\<exists>v b' evs'.
     ExecuteSQLWithPage sample_env ''  SELECT * FROM sheet1 '' 2 2 sample_app [] =
       (Returned (PageOk v), b', evs')"
proof -
  have n: "length sample_rows = 3"
    by (simp add: sample_rows_def)
  have "page_slice sample_rows 2 2 = Inr (spec_totalPages 3 2, spec_page sample_rows 2 2)"
    using page_slice_in_range [of 2 2 sample_rows] by (simp add: n)
  then show ?thesis
    by (simp add: ExecuteSQLWithPage_def Let_def TrimSpace_select sample_env_def
        page_materialize_sample sample_app_def)
qed

theorem C8_export_and_page_agree_witness:
  "ExportExcelBySQL sample_env ''  SELECT * FROM sheet1 '' sample_app [] =
     (MsgExported ''out.xlsx'' 3, sample_app,
      [EvQuery ''SELECT * FROM sheet1'', EvSaveDialog,
       EvSaveAs ''out.xlsx'' (header_cells [''id'', ''name''] @ data_cells [''id'', ''name''] sample_rows)])
   \<and> (\<exists>v b' evs2'.
         ExecuteSQLWithPage sample_env ''  SELECT * FROM sheet1 '' 2 2 sample_app [] =
           (Returned (PageOk v), b', evs2')
         \<and> pv_columns v = [''id'', ''name''] \<and> pv_total v = 3
         \<and> (\<exists>i k. pv_data v = take k (drop i sample_rows)))"
proof -
  have n: "length sample_rows = 3"
    by (simp add: sample_rows_def)
  have ne: "sample_rows \<noteq> []"
    using n by auto
  have x: "ExportExcelBySQL sample_env ''  SELECT * FROM sheet1 '' sample_app [] =
     (MsgExported ''out.xlsx'' 3, sample_app,
      [EvQuery ''SELECT * FROM sheet1'', EvSaveDialog,
       EvSaveAs ''out.xlsx'' (header_cells [''id'', ''name''] @ data_cells [''id'', ''name''] sample_rows)])"
    by (simp add: ExportExcelBySQL_def Let_def TrimSpace_select sample_env_def
        export_materialize_sample n ne sample_app_def)
  obtain v b' evs2' where
    y: "ExecuteSQLWithPage sample_env ''  SELECT * FROM sheet1 '' 2 2 sample_app [] =
          (Returned (PageOk v), b', evs2')"
    using sample_page_2 by blast
  from C8_export_and_page_agree [OF x y]
  obtain rows i k where
    z: "export_materialize sample_cursor = Inr (pv_columns v, rows)"
      "pv_total v = int (length rows)" "pv_data v = take k (drop i rows)"
    by (auto simp: TrimSpace_select sample_env_def)
  from z(1) have "pv_columns v = [''id'', ''name'']" "rows = sample_rows"
    by (simp_all add: export_materialize_sample)
  with x y z n show ?thesis
    by auto
qed

section \<open>Session state\<close>

text \<open>
  Claim C10, with the guard of lines 170-179. A call of the paginated query that
  passes the two checks (the connection is there, the trimmed text is not empty) sets
  the current statement, page number and page size to the trimmed text and the
  parameters, whatever the store then answers, and \<^verbatim>\<open>GetCurrentSQL\<close> returns that
  text; a call that fails a check leaves the three fields as they were. Export,
  import and \<^verbatim>\<open>GetCurrentSQL\<close> leave the struct as it was, and \<^verbatim>\<open>Startup\<close> sets the
  context only.
\<close>

theorem C10_session_state:
  "fst (snd (ExecuteSQLWithPage e q p s a evs)) =
     (if db a \<and> TrimSpace q \<noteq> []
      then a\<lparr>currentSQL := TrimSpace q, currentPage := p, currentPageSize := s\<rparr>
      else a)
   \<and> fst (GetCurrentSQL (fst (snd (ExecuteSQLWithPage e q p s a evs)))) =
     (if db a \<and> TrimSpace q \<noteq> [] then TrimSpace q else currentSQL a)
   \<and> fst (snd (ExportExcelBySQL e q a evs)) = a
   \<and> fst (snd (OpenExcel ie f a g)) = a
   \<and> snd (GetCurrentSQL a) = a
   \<and> Startup c a = a\<lparr>ctx := c\<rparr>"
proof -
  have 1: "fst (snd (ExecuteSQLWithPage e q p s a evs)) =
     (if db a \<and> TrimSpace q \<noteq> []
      then a\<lparr>currentSQL := TrimSpace q, currentPage := p, currentPageSize := s\<rparr>
      else a)"
    by (simp add: ExecuteSQLWithPage_def Let_def split: sum.splits prod.splits)
  have 2: "fst (snd (ExportExcelBySQL e q a evs)) = a"
    by (simp add: ExportExcelBySQL_def Let_def split: sum.splits prod.splits option.splits)
  have 3: "fst (snd (OpenExcel ie f a g)) = a"
    by (simp add: OpenExcel_def split: sum.splits prod.splits)
  show ?thesis
    unfolding 1 by (simp add: 2 3 GetCurrentSQL_def Startup_def)
qed

text \<open>
  Claim C10 as stated fails for a call that does not pass the checks: a call with a
  blank text, page number 3 and page size 5 leaves the state as it was, and
  \<^verbatim>\<open>GetCurrentSQL\<close> still returns the earlier statement, not the trimmed text of the
  call.
\<close>

theorem C10_counterexample_blank_call:
  "fst (snd (ExecuteSQLWithPage sample_env ''   '' 3 5 sample_app [])) = sample_app
   \<and> fst (GetCurrentSQL (fst (snd (ExecuteSQLWithPage sample_env ''   '' 3 5 sample_app [])))) =
       ''SELECT 1''
   \<and> TrimSpace ''   '' = []
   \<and> currentPage sample_app = 1 \<and> currentPageSize sample_app = 20"
  by (simp add: ExecuteSQLWithPage_def TrimSpace_blank GetCurrentSQL_def sample_app_def)

section \<open>Normalisation of the values\<close>

lemma stored_row_Nil [simp]: "stored_row nv [] vals = Map.empty" "stored_row nv columns [] = Map.empty"
  by (simp_all add: stored_row_def)

lemma stored_row_Cons:
  "stored_row nv (col # cols) (val # vals) = [col \<mapsto> nv val] ++ stored_row nv cols vals"
  by (simp add: stored_row_def)

lemma page_row_stored: "page_row columns vals r = r ++ stored_row normalize_value columns vals"
proof (induction columns arbitrary: vals r)
  case Nil
  show ?case by simp
next
  case (Cons col cols)
  show ?case
  proof (cases vals)
    case Nil
    then show ?thesis by simp
  next
    case (Cons val rest)
    have "page_row (col # cols) (val # rest) r = page_row cols rest (r(col \<mapsto> normalize_value val))"
      by (cases val) (simp_all add: fun_upd_def)
    moreover have "r(col \<mapsto> normalize_value val) = r ++ [col \<mapsto> normalize_value val]"
      by simp
    ultimately show ?thesis
      using Cons Cons.IH by (simp add: stored_row_Cons del: map_add_upd)
  qed
qed

lemma query_row_B_stored: "query_row_B columns vals r = r ++ stored_row bytes_to_text columns vals"
proof (induction columns arbitrary: vals r)
  case Nil
  show ?case by simp
next
  case (Cons col cols)
  show ?case
  proof (cases vals)
    case Nil
    then show ?thesis by simp
  next
    case (Cons val rest)
    have b: "(case val of VBytes b \<Rightarrow> VString b | _ \<Rightarrow> val) = bytes_to_text val"
      by (cases val) simp_all
    have "query_row_B (col # cols) (val # rest) r = query_row_B cols rest (r(col \<mapsto> bytes_to_text val))"
      by (cases val) (simp_all add: fun_upd_def)
    moreover have "r(col \<mapsto> bytes_to_text val) = r ++ [col \<mapsto> bytes_to_text val]"
      by simp
    ultimately show ?thesis
      using Cons Cons.IH by (simp add: stored_row_Cons del: map_add_upd)
  qed
qed

lemma page_rows_stored:
  "page_rows columns rs fullData = Inr rows \<Longrightarrow>
   \<exists>valss. rs = map Inr valss \<and> rows = fullData @ map (stored_row normalize_value columns) valss"
proof (induction rs arbitrary: fullData)
  case Nil
  then show ?case by simp
next
  case (Cons r rs)
  from Cons.prems obtain vals where
    v: "r = Inr vals"
    and rest: "page_rows columns rs (fullData @ [page_row columns vals Map.empty]) = Inr rows"
    by (auto simp: scan_row_def split: sum.splits if_splits)
  from Cons.IH [OF rest] obtain valss where
    "rs = map Inr valss"
    "rows = (fullData @ [page_row columns vals Map.empty]) @ map (stored_row normalize_value columns) valss"
    by blast
  with v have "r # rs = map Inr (vals # valss)
      \<and> rows = fullData @ map (stored_row normalize_value columns) (vals # valss)"
    by (simp add: page_row_stored)
  then show ?case by (rule exI)
qed

lemma query_rows_B_stored:
  "query_rows_B columns rs data = Inr rows \<Longrightarrow>
   \<exists>valss. rs = map Inr valss \<and> rows = data @ map (stored_row bytes_to_text columns) valss"
proof (induction rs arbitrary: data)
  case Nil
  then show ?case by simp
next
  case (Cons r rs)
  from Cons.prems obtain vals where
    v: "r = Inr vals"
    and rest: "query_rows_B columns rs (data @ [query_row_B columns vals Map.empty]) = Inr rows"
    by (auto simp: scan_row_def split: sum.splits if_splits)
  from Cons.IH [OF rest] obtain valss where
    "rs = map Inr valss"
    "rows = (data @ [query_row_B columns vals Map.empty]) @ map (stored_row bytes_to_text columns) valss"
    by blast
  with v have "r # rs = map Inr (vals # valss)
      \<and> rows = data @ map (stored_row bytes_to_text columns) (vals # valss)"
    by (simp add: query_row_B_stored)
  then show ?case by (rule exI)
qed

lemma page_materialize_stored:
  "page_materialize cur = Inr (columns, rows) \<Longrightarrow>
   \<exists>valss. cur_rows cur = map Inr valss \<and> rows = map (stored_row normalize_value columns) valss"
  by (auto simp: page_materialize_def split: sum.splits option.splits dest: page_rows_stored)

lemma ExecuteSQL_B_QueryOk:
  assumes "ExecuteSQL_B e q b evs = (Returned (QueryOk columns rows m), b', evs')"
  shows "\<exists>cur. db_query e (TrimSpace q) = Inr cur \<and> cur_columns cur = Inr columns
           \<and> query_rows_B columns (cur_rows cur) [] = Inr rows
           \<and> b' = b\<lparr>queryResult_Columns := columns, queryResult_Data := rows\<rparr>"
  using assms
  by (auto simp: ExecuteSQL_B_def Let_def split: if_splits sum.splits)

text \<open>
  Claim C5, variant by variant. In the paginating variant every row of a returned
  page and every row written by an export is, for the values the store delivered, the
  mapping of the normalised values, where a byte sequence becomes its text and nil
  becomes the empty string. In the caching variant every row returned and cached by
  \<^verbatim>\<open>ExecuteSQL\<close> is the mapping of the values with a byte sequence turned into its text
  and nil kept as nil.
\<close>

theorem C5_values_normalised:
  "(ExecuteSQLWithPage e q p s a evs = (Returned (PageOk v), a', evs') \<longrightarrow>
      (\<exists>cur valss i k.
         db_query e (TrimSpace q) = Inr cur \<and> cur_rows cur = map Inr valss
         \<and> pv_data v = take k (drop i (map (stored_row normalize_value (pv_columns v)) valss))))
   \<and> (ExportExcelBySQL e q a evs = (MsgExported path n, a2, evs2) \<longrightarrow>
      (\<exists>cur columns valss.
         db_query e (TrimSpace q) = Inr cur \<and> cur_rows cur = map Inr valss
         \<and> evs2 = evs @ [EvQuery (TrimSpace q), EvSaveDialog,
              EvSaveAs path (header_cells columns
                @ data_cells columns (map (stored_row normalize_value columns) valss))]))
   \<and> (ExecuteSQL_B e q b evs = (Returned (QueryOk columns rows m), b', evs3) \<longrightarrow>
      (\<exists>cur valss.
         db_query e (TrimSpace q) = Inr cur \<and> cur_rows cur = map Inr valss
         \<and> rows = map (stored_row bytes_to_text columns) valss
         \<and> queryResult_Data b' = rows))
   \<and> normalize_value (VBytes t) = VString t \<and> normalize_value VNil = VString []
   \<and> bytes_to_text (VBytes t) = VString t \<and> bytes_to_text VNil = VNil"
proof -
  have 1: "\<exists>cur valss i k.
         db_query e (TrimSpace q) = Inr cur \<and> cur_rows cur = map Inr valss
         \<and> pv_data v = take k (drop i (map (stored_row normalize_value (pv_columns v)) valss))"
    if h: "ExecuteSQLWithPage e q p s a evs = (Returned (PageOk v), a', evs')"
  proof -
    from ExecuteSQLWithPage_PageOk [OF h] obtain cur rows where
      c: "db_query e (TrimSpace q) = Inr cur" "page_materialize cur = Inr (pv_columns v, rows)"
        "page_slice rows p s = Inr (pv_totalPages v, pv_data v)"
      by blast
    from page_materialize_stored [OF c(2)] obtain valss where
      r: "cur_rows cur = map Inr valss" "rows = map (stored_row normalize_value (pv_columns v)) valss"
      by blast
    from page_slice_is_slice [OF c(3)] obtain i k where "pv_data v = take k (drop i rows)"
      by blast
    with c r show ?thesis by blast
  qed
  have 2: "\<exists>cur columns valss.
         db_query e (TrimSpace q) = Inr cur \<and> cur_rows cur = map Inr valss
         \<and> evs2 = evs @ [EvQuery (TrimSpace q), EvSaveDialog,
              EvSaveAs path (header_cells columns
                @ data_cells columns (map (stored_row normalize_value columns) valss))]"
    if h: "ExportExcelBySQL e q a evs = (MsgExported path n, a2, evs2)"
  proof -
    from ExportExcelBySQL_MsgExported [OF h] obtain cur columns rows where
      c: "db_query e (TrimSpace q) = Inr cur" "export_materialize cur = Inr (columns, rows)"
        "evs2 = evs @ [EvQuery (TrimSpace q), EvSaveDialog,
           EvSaveAs path (header_cells columns @ data_cells columns rows)]"
      by blast
    from c(2) have "page_materialize cur = Inr (columns, rows)"
      by (simp add: export_materialize_page_materialize)
    from page_materialize_stored [OF this] obtain valss where
      "cur_rows cur = map Inr valss" "rows = map (stored_row normalize_value columns) valss"
      by blast
    with c show ?thesis by blast
  qed
  have 3: "\<exists>cur valss.
         db_query e (TrimSpace q) = Inr cur \<and> cur_rows cur = map Inr valss
         \<and> rows = map (stored_row bytes_to_text columns) valss
         \<and> queryResult_Data b' = rows"
    if h: "ExecuteSQL_B e q b evs = (Returned (QueryOk columns rows m), b', evs3)"
  proof -
    from ExecuteSQL_B_QueryOk [OF h] obtain cur where
      c: "db_query e (TrimSpace q) = Inr cur" "query_rows_B columns (cur_rows cur) [] = Inr rows"
        "b' = b\<lparr>queryResult_Columns := columns, queryResult_Data := rows\<rparr>"
      by blast
    from query_rows_B_stored [OF c(2)] obtain valss where
      "cur_rows cur = map Inr valss" "rows = map (stored_row bytes_to_text columns) valss"
      by auto
    with c show ?thesis by auto
  qed
  show ?thesis
    using 1 2 3 by simp
qed

lemma sample_export:
  "ExportExcelBySQL sample_env ''  SELECT * FROM sheet1 '' sample_app [] =
     (MsgExported ''out.xlsx'' 3, sample_app,
      [EvQuery ''SELECT * FROM sheet1'', EvSaveDialog,
       EvSaveAs ''out.xlsx'' (header_cells [''id'', ''name''] @ data_cells [''id'', ''name''] sample_rows)])"
proof -
  have n: "length sample_rows = 3"
    by (simp add: sample_rows_def)
  have ne: "sample_rows \<noteq> []"
    using n by auto
  show ?thesis
    by (simp add: ExportExcelBySQL_def Let_def TrimSpace_select sample_env_def
        export_materialize_sample n ne sample_app_def)
qed

lemma sample_query_B:
  "ExecuteSQL_B sample_env ''  SELECT * FROM sheet1 '' sample_app_B [] =
     (Returned (QueryOk [''id'', ''name''] sample_rows_B (MsgQueryCount 3)),
      sample_app_B\<lparr>queryResult_Columns := [''id'', ''name''], queryResult_Data := sample_rows_B\<rparr>,
      [EvQuery ''SELECT * FROM sheet1''])"
  by (simp add: ExecuteSQL_B_def Let_def TrimSpace_select sample_env_def sample_cursor_def
      sample_rows_B_def scan_row_def sample_app_B_def)

theorem C5_values_normalised_witness:
  "(\<exists>v valss i k.
      fst (ExecuteSQLWithPage sample_env ''  SELECT * FROM sheet1 '' 2 2 sample_app []) =
        Returned (PageOk v)
      \<and> cur_rows sample_cursor = map Inr valss
      \<and> pv_data v = take k (drop i (map (stored_row normalize_value (pv_columns v)) valss)))
   \<and> (\<exists>columns valss.
        cur_rows sample_cursor = map Inr valss
        \<and> snd (snd (ExportExcelBySQL sample_env ''  SELECT * FROM sheet1 '' sample_app [])) =
            [EvQuery ''SELECT * FROM sheet1'', EvSaveDialog,
             EvSaveAs ''out.xlsx'' (header_cells columns
               @ data_cells columns (map (stored_row normalize_value columns) valss))])
   \<and> (\<exists>valss.
        cur_rows sample_cursor = map Inr valss
        \<and> sample_rows_B = map (stored_row bytes_to_text [''id'', ''name'']) valss)"
proof -
  have q: "db_query sample_env (TrimSpace ''  SELECT * FROM sheet1 '') = Inr sample_cursor"
    by (simp add: TrimSpace_select sample_env_def)
  obtain v b' evs' where
    y: "ExecuteSQLWithPage sample_env ''  SELECT * FROM sheet1 '' 2 2 sample_app [] =
          (Returned (PageOk v), b', evs')"
    using sample_page_2 by blast
  note t = C5_values_normalised [of sample_env "''  SELECT * FROM sheet1 ''" 2 2 sample_app "[]"
      v b' evs' "''out.xlsx''" 3 sample_app
      "[EvQuery ''SELECT * FROM sheet1'', EvSaveDialog,
        EvSaveAs ''out.xlsx'' (header_cells [''id'', ''name''] @ data_cells [''id'', ''name''] sample_rows)]"
      sample_app_B "[''id'', ''name'']" sample_rows_B "MsgQueryCount 3"
      "sample_app_B\<lparr>queryResult_Columns := [''id'', ''name''], queryResult_Data := sample_rows_B\<rparr>"
      "[EvQuery ''SELECT * FROM sheet1'']"]
  from t y q have 1: "\<exists>valss i k. cur_rows sample_cursor = map Inr valss
      \<and> pv_data v = take k (drop i (map (stored_row normalize_value (pv_columns v)) valss))"
    by auto
  from t sample_export q have 2: "\<exists>columns valss.
        cur_rows sample_cursor = map Inr valss
        \<and> snd (snd (ExportExcelBySQL sample_env ''  SELECT * FROM sheet1 '' sample_app [])) =
            [EvQuery ''SELECT * FROM sheet1'', EvSaveDialog,
             EvSaveAs ''out.xlsx'' (header_cells columns
               @ data_cells columns (map (stored_row normalize_value columns) valss))]"
    by (auto simp: TrimSpace_select)
  from t sample_query_B q have 3: "\<exists>valss.
        cur_rows sample_cursor = map Inr valss
        \<and> sample_rows_B = map (stored_row bytes_to_text [''id'', ''name'']) valss"
    by auto
  from 1 2 3 y show ?thesis
    by auto
qed

text \<open>
  Claim C5 as stated fails in the caching variant: \<^verbatim>\<open>ExecuteSQL\<close> on the sample answer,
  whose second row has nil in the column \<open>name\<close>, returns and caches the row with nil
  under \<open>name\<close>, not the empty string.
\<close>

theorem C5_counterexample_nil_kept:
  "ExecuteSQL_B sample_env ''  SELECT * FROM sheet1 '' sample_app_B [] =
     (Returned (QueryOk [''id'', ''name''] sample_rows_B (MsgQueryCount 3)),
      sample_app_B\<lparr>queryResult_Columns := [''id'', ''name''], queryResult_Data := sample_rows_B\<rparr>,
      [EvQuery ''SELECT * FROM sheet1''])
   \<and> cur_rows sample_cursor ! 1 = Inr [VInt64 2, VNil]
   \<and> (sample_rows_B ! 1) ''name'' = Some VNil
   \<and> VNil \<noteq> VString []"
  by (simp add: ExecuteSQL_B_def Let_def TrimSpace_select sample_env_def sample_cursor_def
      sample_rows_B_def scan_row_def sample_app_B_def)

section \<open>The cells of an exported workbook\<close>

lemma header_cells_nth:
  "i < length columns \<Longrightarrow> header_cells columns ! i = (cell_name i 1, VString (columns ! i))"
  by (simp add: header_cells_def nth_enumerate_eq)

lemma length_row_cells [simp]: "length (row_cells columns rowIdx rowData) = length columns"
  by (simp add: row_cells_def)

lemma row_cells_nth:
  "i < length columns \<Longrightarrow>
   row_cells columns rowIdx rowData ! i =
     (cell_name i (rowIdx + 2), (case rowData (columns ! i) of None \<Rightarrow> VNil | Some v \<Rightarrow> v))"
  by (simp add: row_cells_def nth_enumerate_eq)

lemma concat_row_cells_nth:
  "r < length rows \<Longrightarrow> i < length columns \<Longrightarrow>
   concat (map (\<lambda>(rowIdx, rowData). row_cells columns rowIdx rowData) (enumerate k rows))
     ! (r * length columns + i) = row_cells columns (k + r) (rows ! r) ! i"
proof (induction rows arbitrary: k r)
  case Nil
  then show ?case by simp
next
  case (Cons x xs)
  show ?case
  proof (cases r)
    case 0
    with Cons.prems show ?thesis by (simp add: nth_append)
  next
    case (Suc r')
    with Cons.prems have "r' < length xs" by simp
    from Cons.IH [OF this Cons.prems(2), of "Suc k"] Suc show ?thesis
      by (simp add: nth_append)
  qed
qed

text \<open>
  For a result of at most 26 columns the cells are as claim C9 says: the header of
  column \<open>i\<close> goes to the \<open>i\<close>-th column letter in row 1, and the value of data row \<open>r\<close>
  under the name of column \<open>i\<close> to that letter in row \<open>r + 2\<close>, in the order of the
  columns and rows.
\<close>

lemma export_cells_up_to_26_columns:
  assumes "i < length columns" and "r < length rows" and "length columns \<le> 26"
  shows "header_cells columns ! i = (\<lparr>cell_col = 65 + i, cell_row = 1\<rparr>, VString (columns ! i))"
    and "data_cells columns rows ! (r * length columns + i) =
      (\<lparr>cell_col = 65 + i, cell_row = r + 2\<rparr>,
       (case (rows ! r) (columns ! i) of None \<Rightarrow> VNil | Some v \<Rightarrow> v))"
    and "is_column_letter (65 + i)"
  using assms concat_row_cells_nth [of r rows i columns 0]
  by (simp_all add: header_cells_nth data_cells_def row_cells_nth cell_name_def
      is_column_letter_def)

text \<open>
  Claim C9 at a result of 27 columns (all columns of an imported sheet that is 27
  columns wide). The header and the values of the column with index 26 are written
  to the cell whose column character has code point 91, the character after \<open>Z\<close>,
  which is no column letter.
\<close>

theorem C9_column_27_has_no_letter:
  "length (column_names 27) = 27
   \<and> header_cells (column_names 27) ! 26 = (\<lparr>cell_col = 91, cell_row = 1\<rparr>, VString ''column27'')
   \<and> fst (data_cells (column_names 27) [Map.empty] ! 26) = \<lparr>cell_col = 91, cell_row = 2\<rparr>
   \<and> \<not> is_column_letter 91"
proof -
  have n: "length (column_names 27) = 27"
    by (simp add: column_names_def)
  have c: "column_names 27 ! 26 = ''column27''"
    by code_simp
  have d: "data_cells (column_names 27) [Map.empty] = row_cells (column_names 27) 0 Map.empty"
    by (simp add: data_cells_def enumerate_eq_zip)
  show ?thesis
    by (simp add: n c d header_cells_nth row_cells_nth cell_name_def is_column_letter_def)
qed

section \<open>The values handed to the insert\<close>

lemma pad_row_eq: "pad_row colCount row = row @ replicate (colCount - length row) []"
proof (induction colCount row rule: pad_row.induct)
  case (1 colCount row)
  show ?case
  proof (cases "length row < colCount")
    case True
    then have "colCount - length row = Suc (colCount - Suc (length row))"
      by simp
    with True 1 show ?thesis
      by (subst pad_row.simps) (simp add: replicate_app_Cons_same)
  next
    case False
    then show ?thesis
      by (subst pad_row.simps) simp
  qed
qed

lemma insert_values_eq:
  "insert_values colCount row = take colCount row @ replicate (colCount - length row) []"
proof -
  let ?p = "row @ replicate (colCount - length row) []"
  have le: "colCount \<le> length ?p" by simp
  have "map (\<lambda>i. ?p ! i) [0..<colCount] = take colCount ?p"
    by (rule nth_equalityI) (use le in \<open>auto simp: nth_append min_def\<close>)
  then show ?thesis
    by (simp add: insert_values_def pad_row_eq)
qed

lemma run_op_oplog: "run_op f op g = (r, g1) \<Longrightarrow> oplog g1 = oplog g @ [op]"
  by (cases op) (auto simp: run_op_def Let_def split: option.splits if_splits)

text \<open>The loading of a sheet that has a row, given the answers of the engine.\<close>

lemma import_sheet_unfold:
  assumes "run_op f (OpDropTable (table_name sheetIdx)) g = (r1, g1)"
    and "run_op f (OpCreateTable (table_name sheetIdx) (column_names (length header))) g1 = (r2, g2)"
    and "run_op f OpBegin g2 = (r3, g3)"
    and "run_op f (OpPrepare (table_name sheetIdx) (column_names (length header))) g3 = (r4, g4)"
    and "run_op f OpRollback g4 = (r4b, g4b)"
    and "insert_rows f (table_name sheetIdx) (length header) 1 dataRows g4 = (r5, g5)"
    and "run_op f OpCommit g5 = (r6, g6)"
  shows "import_sheet f sheetIdx (name, Inr (header # dataRows)) n g =
     (case r1 of
        Some err \<Rightarrow> (Inl (Returned (ErrDropTable (table_name sheetIdx) err)), g1)
      | None \<Rightarrow>
     (case r2 of
        Some err \<Rightarrow> (Inl (Returned (ErrCreateTable (table_name sheetIdx) err)), g2)
      | None \<Rightarrow>
     (case r3 of
        Some err \<Rightarrow> (Inl (Returned (ErrBegin err)), g3)
      | None \<Rightarrow>
     if length header = 0 then (Inl (Panicked SliceBounds), g3)
     else
     (case r4 of
        Some err \<Rightarrow> (Inl (Returned (ErrPrepare err)), g4b)
      | None \<Rightarrow>
     (case r5 of
        Some m \<Rightarrow> (Inl (Returned m), g5)
      | None \<Rightarrow>
     (case r6 of
        Some err \<Rightarrow> (Inl (Returned (ErrCommit err)), g6)
      | None \<Rightarrow> (Inr (n + 1), g6)))))))"
  using assms by (cases header) (simp_all add: import_sheet_def Let_def split: option.splits)

section \<open>Import in the paginating variant\<close>

lemma run_op_None:
  "run_op f op g = (None, g1) \<Longrightarrow> g1 = apply_op op (g\<lparr>oplog := oplog g @ [op]\<rparr>)"
  by (auto simp: run_op_def Let_def split: option.splits if_splits)

lemma run_op_Some:
  "run_op f op g = (Some err, g1) \<Longrightarrow>
   f (oplog g) op = Some err \<and> (op \<noteq> OpRollback \<longrightarrow> g1 = g\<lparr>oplog := oplog g @ [op]\<rparr>)"
  by (auto simp: run_op_def Let_def split: option.splits if_splits)

lemma run_op_Rollback:
  "run_op f OpRollback g = (r, g1) \<Longrightarrow>
   pending g1 = None \<and> tables g1 = tables g \<and> oplog g1 = oplog g @ [OpRollback]"
  by (auto simp: run_op_def Let_def split: option.splits)

text \<open>
  The loop over the data rows, when it ends with a message: the message names the
  index, counted from the first data row, of the row whose insert the engine refused;
  the inserts before it were accepted, the transaction is rolled back, the committed
  tables are as before the loop, and the rollback is the last call.
\<close>

lemma insert_rows_failed:
  assumes "insert_rows f t colCount rowIdx rows g = (Some m, g')" and "pending g = Some ps"
  shows "\<exists>k err log0.
           k < length rows \<and> m = ErrInsertRow (rowIdx + k) err
           \<and> tables g' = tables g \<and> pending g' = None
           \<and> oplog g' = log0 @ [OpStmtExec t (insert_values colCount (rows ! k)), OpRollback]
           \<and> f log0 (OpStmtExec t (insert_values colCount (rows ! k))) = Some err"
  using assms
proof (induction rows arbitrary: rowIdx g ps)
  case Nil
  then show ?case by simp
next
  case (Cons row rest)
  let ?op = "OpStmtExec t (insert_values colCount row)"
  obtain r g1 where x: "run_op f ?op g = (r, g1)"
    by (cases "run_op f ?op g")
  show ?case
  proof (cases r)
    case (Some err)
    obtain r2 g2 where y: "run_op f OpRollback g1 = (r2, g2)"
      by (cases "run_op f OpRollback g1")
    from x Some run_op_Some [of f ?op g err g1]
    have g1: "g1 = g\<lparr>oplog := oplog g @ [?op]\<rparr>" and fl: "f (oplog g) ?op = Some err"
      by simp_all
    from Cons.prems(1) x y Some have m: "m = ErrInsertRow rowIdx err" and g': "g' = g2"
      by simp_all
    from run_op_Rollback [OF y] g1 g'
    have "tables g' = tables g" "pending g' = None" "oplog g' = oplog g @ [?op, OpRollback]"
      by simp_all
    with m fl have "0 < length (row # rest) \<and> m = ErrInsertRow (rowIdx + 0) err
        \<and> tables g' = tables g \<and> pending g' = None
        \<and> oplog g' = oplog g @ [OpStmtExec t (insert_values colCount ((row # rest) ! 0)), OpRollback]
        \<and> f (oplog g) (OpStmtExec t (insert_values colCount ((row # rest) ! 0))) = Some err"
      by simp
    then show ?thesis by blast
  next
    case None
    from run_op_None [of f ?op g g1] x None Cons.prems(2)
    have p1: "pending g1 = Some (ps @ [(t, insert_values colCount row)])"
      and t1: "tables g1 = tables g"
      by simp_all
    from Cons.prems(1) x None
    have "insert_rows f t colCount (rowIdx + 1) rest g1 = (Some m, g')"
      by simp
    from Cons.IH [OF this p1] obtain k err log0 where
      k: "k < length rest" "m = ErrInsertRow (rowIdx + 1 + k) err"
        "tables g' = tables g1" "pending g' = None"
        "oplog g' = log0 @ [OpStmtExec t (insert_values colCount (rest ! k)), OpRollback]"
        "f log0 (OpStmtExec t (insert_values colCount (rest ! k))) = Some err"
      by blast
    with t1 have "Suc k < length (row # rest) \<and> m = ErrInsertRow (rowIdx + Suc k) err
        \<and> tables g' = tables g \<and> pending g' = None
        \<and> oplog g' = log0 @ [OpStmtExec t (insert_values colCount ((row # rest) ! Suc k)), OpRollback]
        \<and> f log0 (OpStmtExec t (insert_values colCount ((row # rest) ! Suc k))) = Some err"
      by simp
    then show ?thesis by blast
  qed
qed

lemma insert_rows_message:
  "insert_rows f t colCount rowIdx rows g = (Some m, g') \<Longrightarrow> \<exists>j err. m = ErrInsertRow j err"
proof (induction rows arbitrary: rowIdx g)
  case Nil
  then show ?case by simp
next
  case (Cons row rest)
  then show ?case
    by (cases "run_op f (OpStmtExec t (insert_values colCount row)) g")
      (auto split: option.splits)
qed

text \<open>
  The loading of one sheet, when it returns the message of a refused insert: the
  sheet's table is there with no row, no transaction is open, the index named is
  that of the refused row among the data rows, counted from 1, and the rollback is
  the last call that reached the engine.
\<close>

lemma import_sheet_insert_refused:
  assumes "import_sheet f sheetIdx (name, Inr (header # dataRows)) n g =
      (Inl (Returned (ErrInsertRow j err)), g')"
  shows "1 \<le> j \<and> j \<le> length dataRows
     \<and> tables g' (table_name sheetIdx) = Some [] \<and> pending g' = None
     \<and> (\<exists>log0. oplog g' = log0
           @ [OpStmtExec (table_name sheetIdx) (insert_values (length header) (dataRows ! (j - 1))),
              OpRollback]
         \<and> f log0 (OpStmtExec (table_name sheetIdx)
              (insert_values (length header) (dataRows ! (j - 1)))) = Some err)"
proof -
  let ?t = "table_name sheetIdx"
  let ?c = "length header"
  obtain r1 g1 where o1: "run_op f (OpDropTable ?t) g = (r1, g1)"
    by (cases "run_op f (OpDropTable ?t) g")
  obtain r2 g2 where o2: "run_op f (OpCreateTable ?t (column_names ?c)) g1 = (r2, g2)"
    by (cases "run_op f (OpCreateTable ?t (column_names ?c)) g1")
  obtain r3 g3 where o3: "run_op f OpBegin g2 = (r3, g3)"
    by (cases "run_op f OpBegin g2")
  obtain r4 g4 where o4: "run_op f (OpPrepare ?t (column_names ?c)) g3 = (r4, g4)"
    by (cases "run_op f (OpPrepare ?t (column_names ?c)) g3")
  obtain r4b g4b where o4b: "run_op f OpRollback g4 = (r4b, g4b)"
    by (cases "run_op f OpRollback g4")
  obtain r5 g5 where o5: "insert_rows f ?t ?c 1 dataRows g4 = (r5, g5)"
    by (cases "insert_rows f ?t ?c 1 dataRows g4")
  obtain r6 g6 where o6: "run_op f OpCommit g5 = (r6, g6)"
    by (cases "run_op f OpCommit g5")
  from assms have
    r: "r1 = None" "r2 = None" "r3 = None" "r4 = None" "r5 = Some (ErrInsertRow j err)" "g' = g5"
    unfolding import_sheet_unfold [OF o1 o2 o3 o4 o4b o5 o6]
    by (auto split: option.splits if_splits)
  note e = run_op_None [OF o1 [unfolded r(1)]] run_op_None [OF o2 [unfolded r(2)]]
    run_op_None [OF o3 [unfolded r(3)]] run_op_None [OF o4 [unfolded r(4)]]
  have g4: "tables g4 ?t = Some []" "pending g4 = Some []"
    by (simp_all add: e)
  from insert_rows_failed [OF o5 [unfolded r(5)] g4(2)] obtain k e log0 where
    k: "k < length dataRows" "ErrInsertRow j err = ErrInsertRow (1 + k) e"
      "tables g5 = tables g4" "pending g5 = None"
      "oplog g5 = log0 @ [OpStmtExec ?t (insert_values ?c (dataRows ! k)), OpRollback]"
      "f log0 (OpStmtExec ?t (insert_values ?c (dataRows ! k))) = Some e"
    by blast
  from k(2) have j: "j = 1 + k" "e = err" by simp_all
  with k g4 r(6) show ?thesis
    by auto
qed

text \<open>
  The import of a file, when it returns the message of a refused insert: the import
  stopped in a sheet that has rows, whose table is there with no row; the rollback of
  that sheet's transaction is the last call that reached the engine, so no later
  sheet was attempted.
\<close>

lemma import_sheets_insert_refused:
  assumes "import_sheets f n sheetIdx successCount sheets g = (Returned (ErrInsertRow j err), g')"
  shows "\<exists>before name header dataRows rest.
           sheets = before @ (name, Inr (header # dataRows)) # rest
           \<and> 1 \<le> j \<and> j \<le> length dataRows
           \<and> tables g' (table_name (sheetIdx + length before)) = Some []
           \<and> pending g' = None
           \<and> last (oplog g') = OpRollback"
  using assms
proof (induction sheets arbitrary: sheetIdx successCount g)
  case Nil
  then show ?case by simp
next
  case (Cons sh rest)
  obtain res g1 where x: "import_sheet f sheetIdx sh successCount g = (res, g1)"
    by (cases "import_sheet f sheetIdx sh successCount g")
  show ?case
  proof (cases res)
    case (Inl out)
    with Cons.prems x have out: "out = Returned (ErrInsertRow j err)" and g1: "g1 = g'"
      by simp_all
    obtain name rr where sh: "sh = (name, rr)" by (cases sh)
    from x Inl out sh obtain header dataRows where rr: "rr = Inr (header # dataRows)"
      by (cases rr; cases "projr rr") (auto simp: import_sheet_def)
    from import_sheet_insert_refused [of f sheetIdx name header dataRows successCount g j err g']
      x Inl out g1 sh rr
    have "sh # rest = [] @ (name, Inr (header # dataRows)) # rest
        \<and> 1 \<le> j \<and> j \<le> length dataRows
        \<and> tables g' (table_name (sheetIdx + length ([] :: sheet list))) = Some []
        \<and> pending g' = None \<and> last (oplog g') = OpRollback"
      by auto
    then show ?thesis by blast
  next
    case (Inr sc)
    with Cons.prems x
    have "import_sheets f n (sheetIdx + 1) sc rest g1 = (Returned (ErrInsertRow j err), g')"
      by simp
    from Cons.IH [OF this] obtain before name header dataRows rest' where
      "rest = before @ (name, Inr (header # dataRows)) # rest'"
      "1 \<le> j" "j \<le> length dataRows"
      "tables g' (table_name (sheetIdx + 1 + length before)) = Some []"
      "pending g' = None" "last (oplog g') = OpRollback"
      by blast
    then have "sh # rest = (sh # before) @ (name, Inr (header # dataRows)) # rest'
        \<and> 1 \<le> j \<and> j \<le> length dataRows
        \<and> tables g' (table_name (sheetIdx + length (sh # before))) = Some []
        \<and> pending g' = None \<and> last (oplog g') = OpRollback"
      by simp
    then show ?thesis by blast
  qed
qed

text \<open>
  Claim C2 on the sample file with an engine that refuses the insert of the second
  data row. The paginating variant returns the message naming row 2 and leaves the
  table with no row. The caching variant inserts every row with a statement of its
  own, outside any transaction: the first data row stays in the table, and the
  message names no row.
\<close>

theorem C2_caching_variant_keeps_rows:
  "(case OpenExcel_B sample_import_env second_row_fault sample_app_B empty_engine of
      (out, a, g) \<Rightarrow>
        out = Returned (ErrInsert ''disk full'')
        \<and> tables g ''sheet1'' = Some [[''ann'', ''31'']]
        \<and> oplog g =
            [OpDropTable ''sheet1'', OpCreateTable ''sheet1'' [''column1'', ''column2''],
             OpInsert ''sheet1'' [''column1'', ''column2''] [''ann'', ''31''],
             OpInsert ''sheet1'' [''column1'', ''column2''] [''bob'', []]])
   \<and> (case OpenExcel sample_import_env second_row_fault sample_app empty_engine of
      (out, a, g) \<Rightarrow>
        out = Returned (ErrInsertRow 2 ''disk full'')
        \<and> tables g ''sheet1'' = Some [] \<and> pending g = None
        \<and> oplog g =
            [OpDropTable ''sheet1'', OpCreateTable ''sheet1'' [''column1'', ''column2''],
             OpBegin, OpPrepare ''sheet1'' [''column1'', ''column2''],
             OpStmtExec ''sheet1'' [''ann'', ''31''], OpStmtExec ''sheet1'' [''bob'', []],
             OpRollback])"
  by code_simp

section \<open>Sheets imported and sheets in the file\<close>

lemma import_sheet_no_rows: "import_sheet f sheetIdx (name, Inr []) n g = (Inr n, g)"
  by (simp add: import_sheet_def)

lemma import_sheet_B_no_rows: "import_sheet_B f dbOpen sheetIdx (name, Inr []) g = (Inr (), g)"
  by (simp add: import_sheet_B_def)

lemma import_sheet_stops:
  "import_sheet f sheetIdx sh successCount g = (Inl out, g1) \<Longrightarrow>
   import_sheets f n sheetIdx successCount (sh # rest) g = (out, g1)"
  by simp

lemma import_sheet_result:
  assumes "import_sheet f sheetIdx sh n g = (res, g')"
  shows "(case res of
            Inl out \<Rightarrow> \<forall>k m. out \<noteq> Returned (MsgImported k m)
          | Inr n' \<Rightarrow> n' = n + (if has_rows sh then 1 else 0))"
proof -
  obtain name rr where sh: "sh = (name, rr)" by (cases sh)
  show ?thesis
  proof (cases rr)
    case (Inl e)
    with assms sh show ?thesis by (auto simp: import_sheet_def)
  next
    case (Inr rows)
    show ?thesis
    proof (cases rows)
      case Nil
      with assms sh Inr show ?thesis by (auto simp: import_sheet_def)
    next
      case (Cons header dataRows)
      let ?t = "table_name sheetIdx"
      let ?c = "length header"
      obtain r1 g1 where o1: "run_op f (OpDropTable ?t) g = (r1, g1)"
        by (cases "run_op f (OpDropTable ?t) g")
      obtain r2 g2 where o2: "run_op f (OpCreateTable ?t (column_names ?c)) g1 = (r2, g2)"
        by (cases "run_op f (OpCreateTable ?t (column_names ?c)) g1")
      obtain r3 g3 where o3: "run_op f OpBegin g2 = (r3, g3)"
        by (cases "run_op f OpBegin g2")
      obtain r4 g4 where o4: "run_op f (OpPrepare ?t (column_names ?c)) g3 = (r4, g4)"
        by (cases "run_op f (OpPrepare ?t (column_names ?c)) g3")
      obtain r4b g4b where o4b: "run_op f OpRollback g4 = (r4b, g4b)"
        by (cases "run_op f OpRollback g4")
      obtain r5 g5 where o5: "insert_rows f ?t ?c 1 dataRows g4 = (r5, g5)"
        by (cases "insert_rows f ?t ?c 1 dataRows g4")
      obtain r6 g6 where o6: "run_op f OpCommit g5 = (r6, g6)"
        by (cases "run_op f OpCommit g5")
      have m: "\<And>m. r5 = Some m \<Longrightarrow> \<exists>j err. m = ErrInsertRow j err"
        using insert_rows_message o5 by blast
      from assms sh Inr Cons
      have "import_sheet f sheetIdx (name, Inr (header # dataRows)) n g = (res, g')"
        by simp
      then show ?thesis
        unfolding import_sheet_unfold [OF o1 o2 o3 o4 o4b o5 o6]
        using sh Inr Cons by (auto split: option.splits if_splits dest: m)
    qed
  qed
qed

text \<open>
  The import of a file in the paginating variant, when it ends with the message of
  success: the message holds the number of sheets that have a row, each of which was
  loaded, and the number of sheets of the file.
\<close>

lemma import_sheets_imported:
  assumes "import_sheets f n sheetIdx successCount sheets g = (Returned (MsgImported k m), g')"
  shows "m = n \<and> k = successCount + length (filter has_rows sheets)"
  using assms
proof (induction sheets arbitrary: sheetIdx successCount g)
  case Nil
  then show ?case by simp
next
  case (Cons sh rest)
  obtain res g1 where x: "import_sheet f sheetIdx sh successCount g = (res, g1)"
    by (cases "import_sheet f sheetIdx sh successCount g")
  show ?case
  proof (cases res)
    case (Inl out)
    with import_sheet_result [OF x] Cons.prems x show ?thesis by simp
  next
    case (Inr sc)
    with import_sheet_result [OF x] have sc: "sc = successCount + (if has_rows sh then 1 else 0)"
      by simp
    from Cons.prems x Inr
    have "import_sheets f n (sheetIdx + 1) sc rest g1 = (Returned (MsgImported k m), g')"
      by simp
    from Cons.IH [OF this] sc show ?thesis by simp
  qed
qed

lemma OpenExcel_imported:
  assumes "OpenExcel ie f a g = (Returned (MsgImported k m), a', g')"
  shows "\<exists>filePath sheets.
           open_dialog ie = Inr filePath \<and> open_file ie filePath = Inr sheets
           \<and> m = length sheets \<and> k = length (filter has_rows sheets)"
proof -
  from assms obtain filePath sheets where
    s: "open_dialog ie = Inr filePath" "open_file ie filePath = Inr sheets"
      "import_sheets f (length sheets) 0 0 sheets g = (Returned (MsgImported k m), g')"
    by (auto simp: OpenExcel_def split: if_splits sum.splits prod.splits)
  from import_sheets_imported [OF s(3)] s show ?thesis by auto
qed

text \<open>
  Claim C7 on the sample file, whose second sheet has no row. Both variants skip the
  second sheet and create no table for it. The paginating variant reports one sheet
  imported of two. The caching variant reports two sheets imported: its message
  holds the number of sheets of the file only.
\<close>

theorem C7_caching_variant_counts_every_sheet:
  "(case OpenExcel_B sample_import_env no_faults sample_app_B empty_engine of
      (out, a, g) \<Rightarrow>
        out = Returned (MsgImported_B 2)
        \<and> tables g ''sheet1'' = Some [[''ann'', ''31''], [''bob'', []], [''cy'', ''27'']]
        \<and> tables g ''sheet2'' = None)
   \<and> length (filter has_rows sample_sheets) = 1 \<and> length sample_sheets = 2
   \<and> (case OpenExcel sample_import_env no_faults sample_app empty_engine of
      (out, a, g) \<Rightarrow>
        out = Returned (MsgImported 1 2)
        \<and> tables g ''sheet1'' = Some [[''ann'', ''31''], [''bob'', []], [''cy'', ''27'']]
        \<and> tables g ''sheet2'' = None)"
  by code_simp

section \<open>Every data row reaches the insert\<close>

lemma run_op_accepted: "f (oplog g) op = None \<Longrightarrow> fst (run_op f op g) = None"
  by (simp add: run_op_def Let_def)

text \<open>
  The inserts that the loop over the data rows sends: for every row when the loop ends
  without a message, and for the rows up to and with the refused one otherwise.
\<close>

lemma insert_rows_sent:
  assumes "insert_rows f t colCount rowIdx rows g = (r, g')"
  shows "(case r of
            None \<Rightarrow>
              filter is_insert (oplog g') =
                filter is_insert (oplog g)
                @ map (\<lambda>row. OpStmtExec t (insert_values colCount row)) rows
          | Some m \<Rightarrow>
              (\<exists>k err. k < length rows \<and> m = ErrInsertRow (rowIdx + k) err
                 \<and> filter is_insert (oplog g') =
                     filter is_insert (oplog g)
                     @ map (\<lambda>row. OpStmtExec t (insert_values colCount row)) (take (Suc k) rows)))"
  using assms
proof (induction rows arbitrary: rowIdx g)
  case Nil
  then show ?case by auto
next
  case (Cons row rest)
  let ?ins = "\<lambda>row. OpStmtExec t (insert_values colCount row)"
  obtain r1 g1 where x: "run_op f (?ins row) g = (r1, g1)"
    by (cases "run_op f (?ins row) g")
  note l1 = run_op_oplog [OF x]
  show ?case
  proof (cases r1)
    case (Some err)
    obtain r2 g2 where y: "run_op f OpRollback g1 = (r2, g2)"
      by (cases "run_op f OpRollback g1")
    from Cons.prems x y Some have r: "r = Some (ErrInsertRow rowIdx err)" and g': "g' = g2"
      by simp_all
    from l1 run_op_oplog [OF y] g'
    have "filter is_insert (oplog g') = filter is_insert (oplog g) @ map ?ins (take (Suc 0) (row # rest))"
      by simp
    then have "0 < length (row # rest) \<and> ErrInsertRow rowIdx err = ErrInsertRow (rowIdx + 0) err
        \<and> filter is_insert (oplog g') =
            filter is_insert (oplog g) @ map ?ins (take (Suc 0) (row # rest))"
      by simp
    then show ?thesis
      unfolding r option.case by blast
  next
    case None
    with Cons.prems x have rest: "insert_rows f t colCount (rowIdx + 1) rest g1 = (r, g')"
      by simp
    note ih = Cons.IH [OF rest]
    show ?thesis
    proof (cases r)
      case None
      with ih l1 show ?thesis by simp
    next
      case (Some m)
      with ih obtain k err where
        k: "k < length rest" "m = ErrInsertRow (rowIdx + 1 + k) err"
          "filter is_insert (oplog g') = filter is_insert (oplog g1) @ map ?ins (take (Suc k) rest)"
        by auto
      with l1 have "Suc k < length (row # rest) \<and> m = ErrInsertRow (rowIdx + Suc k) err
          \<and> filter is_insert (oplog g') =
              filter is_insert (oplog g) @ map ?ins (take (Suc (Suc k)) (row # rest))"
        by simp
      then show ?thesis
        unfolding Some option.case by blast
    qed
  qed
qed

lemma insert_rows_accepted:
  "\<forall>ops op. f ops op = None \<Longrightarrow> fst (insert_rows f t colCount rowIdx rows g) = None"
proof (induction rows arbitrary: rowIdx g)
  case Nil
  show ?case by simp
next
  case (Cons row rest)
  obtain r1 g1 where x: "run_op f (OpStmtExec t (insert_values colCount row)) g = (r1, g1)"
    by (cases "run_op f (OpStmtExec t (insert_values colCount row)) g")
  from Cons.prems run_op_accepted [of f g "OpStmtExec t (insert_values colCount row)"] x
  have "r1 = None" by simp
  with x Cons.IH [OF Cons.prems, of "rowIdx + 1" g1] show ?case by simp
qed

text \<open>
  Claim C4. The values handed to the insert for a data row are the first \<open>colCount\<close>
  values of the row, followed by as many empty strings as the row is short of
  \<open>colCount\<close>: exactly \<open>colCount\<close> strings, none of them absent, none beyond the column
  count. The inserts that the loading of a sheet sends to the engine are exactly
  these values, with \<open>colCount\<close> the width of the header row, for the data rows in
  their order: for every data row when the sheet is loaded (or only its commit is
  refused), for the data rows up to and with row \<open>j\<close> when the insert of row \<open>j\<close> is
  refused, and for no row when the loading stops before the loop over the rows. An
  engine that refuses no call and a header that is not empty load the sheet, so that
  every data row is inserted.
\<close>

theorem C4_insert_values:
  "insert_values colCount row = take colCount row @ replicate (colCount - length row) []
   \<and> length (insert_values colCount row) = colCount
   \<and> filter is_insert (oplog (snd (import_sheet f sheetIdx (name, Inr (header # dataRows)) n g))) =
       filter is_insert (oplog g)
       @ map (\<lambda>row. OpStmtExec (table_name sheetIdx)
                (take (length header) row @ replicate (length header - length row) []))
           (take (case fst (import_sheet f sheetIdx (name, Inr (header # dataRows)) n g) of
                    Inr n' \<Rightarrow> length dataRows
                  | Inl (Returned (ErrInsertRow j e)) \<Rightarrow> j
                  | Inl (Returned (ErrCommit e)) \<Rightarrow> length dataRows
                  | Inl _ \<Rightarrow> 0)
              dataRows)
   \<and> (\<forall>j e. fst (import_sheet f sheetIdx (name, Inr (header # dataRows)) n g) =
                Inl (Returned (ErrInsertRow j e)) \<longrightarrow> 1 \<le> j \<and> j \<le> length dataRows)
   \<and> ((\<forall>ops op. f ops op = None) \<and> header \<noteq> [] \<longrightarrow>
        fst (import_sheet f sheetIdx (name, Inr (header # dataRows)) n g) = Inr (n + 1))"
proof -
  let ?t = "table_name sheetIdx"
  let ?c = "length header"
  let ?ins = "\<lambda>row. OpStmtExec ?t (take ?c row @ replicate (?c - length row) [])"
  let ?res = "import_sheet f sheetIdx (name, Inr (header # dataRows)) n g"
  have a: "insert_values colCount row = take colCount row @ replicate (colCount - length row) []"
    by (rule insert_values_eq)
  have b: "length (insert_values colCount row) = colCount"
    by (simp add: insert_values_eq)
  obtain r1 g1 where o1: "run_op f (OpDropTable ?t) g = (r1, g1)"
    by (cases "run_op f (OpDropTable ?t) g")
  obtain r2 g2 where o2: "run_op f (OpCreateTable ?t (column_names ?c)) g1 = (r2, g2)"
    by (cases "run_op f (OpCreateTable ?t (column_names ?c)) g1")
  obtain r3 g3 where o3: "run_op f OpBegin g2 = (r3, g3)"
    by (cases "run_op f OpBegin g2")
  obtain r4 g4 where o4: "run_op f (OpPrepare ?t (column_names ?c)) g3 = (r4, g4)"
    by (cases "run_op f (OpPrepare ?t (column_names ?c)) g3")
  obtain r4b g4b where o4b: "run_op f OpRollback g4 = (r4b, g4b)"
    by (cases "run_op f OpRollback g4")
  obtain r5 g5 where o5: "insert_rows f ?t ?c 1 dataRows g4 = (r5, g5)"
    by (cases "insert_rows f ?t ?c 1 dataRows g4")
  obtain r6 g6 where o6: "run_op f OpCommit g5 = (r6, g6)"
    by (cases "run_op f OpCommit g5")
  note u = import_sheet_unfold [OF o1 o2 o3 o4 o4b o5 o6, of name n]
  note l = run_op_oplog [OF o1] run_op_oplog [OF o2] run_op_oplog [OF o3]
    run_op_oplog [OF o4] run_op_oplog [OF o4b] run_op_oplog [OF o6]
  have pre: "filter is_insert (oplog g1) = filter is_insert (oplog g)"
    "filter is_insert (oplog g2) = filter is_insert (oplog g)"
    "filter is_insert (oplog g3) = filter is_insert (oplog g)"
    "filter is_insert (oplog g4) = filter is_insert (oplog g)"
    "filter is_insert (oplog g4b) = filter is_insert (oplog g)"
    "filter is_insert (oplog g6) = filter is_insert (oplog g5)"
    using l by simp_all
  have c: "filter is_insert (oplog (snd ?res)) =
       filter is_insert (oplog g)
       @ map ?ins
           (take (case fst ?res of
                    Inr n' \<Rightarrow> length dataRows
                  | Inl (Returned (ErrInsertRow j e)) \<Rightarrow> j
                  | Inl (Returned (ErrCommit e)) \<Rightarrow> length dataRows
                  | Inl _ \<Rightarrow> 0)
              dataRows)"
  proof (cases r5)
    case None
    with insert_rows_sent [OF o5]
    have five: "filter is_insert (oplog g5) = filter is_insert (oplog g) @ map ?ins dataRows"
      by (simp add: pre insert_values_eq)
    show ?thesis
      unfolding u using None five
      by (simp add: pre split: option.splits)
  next
    case (Some m)
    with insert_rows_sent [OF o5] obtain k err where
      k: "k < length dataRows" "m = ErrInsertRow (1 + k) err"
        "filter is_insert (oplog g5) = filter is_insert (oplog g) @ map ?ins (take (Suc k) dataRows)"
      by (auto simp: pre insert_values_eq)
    show ?thesis
      unfolding u using Some k
      by (simp add: pre split: option.splits)
  qed
  have d: "1 \<le> j \<and> j \<le> length dataRows"
    if "fst ?res = Inl (Returned (ErrInsertRow j e))" for j e
  proof -
    from that have "?res = (Inl (Returned (ErrInsertRow j e)), snd ?res)"
      by (metis prod.collapse)
    from import_sheet_insert_refused [OF this] show ?thesis by simp
  qed
  have e: "fst ?res = Inr (n + 1)" if nf: "\<forall>ops op. f ops op = None" and h: "header \<noteq> []"
  proof -
    from nf o1 o2 o3 o4 o6
      run_op_accepted [of f g "OpDropTable ?t"]
      run_op_accepted [of f g1 "OpCreateTable ?t (column_names ?c)"]
      run_op_accepted [of f g2 OpBegin]
      run_op_accepted [of f g3 "OpPrepare ?t (column_names ?c)"]
      run_op_accepted [of f g5 OpCommit]
    have r: "r1 = None" "r2 = None" "r3 = None" "r4 = None" "r6 = None"
      by simp_all
    from insert_rows_accepted [OF nf, of ?t ?c 1 dataRows g4] o5 have "r5 = None"
      by simp
    with r h show ?thesis
      unfolding u by simp
  qed
  from a b c d e show ?thesis by blast
qed

text \<open>
  On the first sheet of the sample file: an engine that refuses nothing receives the
  three data rows, the short one padded and the long one cut to the two columns; an
  engine that refuses the second insert receives the first two, and the message names
  row 2 of 3.
\<close>

theorem C4_insert_values_witness:
  "fst (import_sheet no_faults 0
          (''People'', Inr ([''Name'', ''Age''] # [[''ann'', ''31''], [''bob''], [''cy'', ''27'', ''x'']]))
          0 empty_engine) = Inr 1
   \<and> filter is_insert (oplog (snd (import_sheet no_faults 0
          (''People'', Inr ([''Name'', ''Age''] # [[''ann'', ''31''], [''bob''], [''cy'', ''27'', ''x'']]))
          0 empty_engine))) =
       [OpStmtExec ''sheet1'' [''ann'', ''31''], OpStmtExec ''sheet1'' [''bob'', []],
        OpStmtExec ''sheet1'' [''cy'', ''27'']]
   \<and> fst (import_sheet second_row_fault 0
          (''People'', Inr ([''Name'', ''Age''] # [[''ann'', ''31''], [''bob''], [''cy'', ''27'', ''x'']]))
          0 empty_engine) = Inl (Returned (ErrInsertRow 2 ''disk full''))
   \<and> filter is_insert (oplog (snd (import_sheet second_row_fault 0
          (''People'', Inr ([''Name'', ''Age''] # [[''ann'', ''31''], [''bob''], [''cy'', ''27'', ''x'']]))
          0 empty_engine))) =
       [OpStmtExec ''sheet1'' [''ann'', ''31''], OpStmtExec ''sheet1'' [''bob'', []]]
   \<and> (1::nat) \<le> 2 \<and> (2::nat) \<le> length [[''ann'', ''31''], [''bob''], [''cy'', ''27'', ''x'']]"
proof -
  let ?rows = "[[''ann'', ''31''], [''bob''], [''cy'', ''27'', ''x'']]"
  let ?sh = "(''People'', Inr ([''Name'', ''Age''] # ?rows))"
  have t: "table_name 0 = ''sheet1''"
    by code_simp
  have nf: "\<forall>ops op. no_faults ops op = None"
    by (simp add: no_faults_def)
  have x: "fst (import_sheet second_row_fault 0 ?sh 0 empty_engine) =
      Inl (Returned (ErrInsertRow 2 ''disk full''))"
    by code_simp
  note p = C4_insert_values [of 2 "[''bob'']" no_faults 0 "''People''" "[''Name'', ''Age'']" ?rows 0 empty_engine]
  note q = C4_insert_values [of 2 "[''bob'']" second_row_fault 0 "''People''" "[''Name'', ''Age'']" ?rows 0
      empty_engine]
  from p nf have ok: "fst (import_sheet no_faults 0 ?sh 0 empty_engine) = Inr 1"
    by simp
  from p ok have 1: "filter is_insert (oplog (snd (import_sheet no_faults 0 ?sh 0 empty_engine))) =
       [OpStmtExec ''sheet1'' [''ann'', ''31''], OpStmtExec ''sheet1'' [''bob'', []],
        OpStmtExec ''sheet1'' [''cy'', ''27'']]"
    by (simp add: t empty_engine_def)
  from q x have 2: "filter is_insert (oplog (snd (import_sheet second_row_fault 0 ?sh 0 empty_engine))) =
       [OpStmtExec ''sheet1'' [''ann'', ''31''], OpStmtExec ''sheet1'' [''bob'', []]]"
    by (simp add: t empty_engine_def)
  from q x have 3: "(1::nat) \<le> 2 \<and> (2::nat) \<le> length ?rows"
    by simp
  from ok 1 x 2 3 show ?thesis by blast
qed

end
